theory Spec2Isabelle
  imports Main "HOL-Library.Sublist"
begin

section \<open>Strings as the updater uses them\<close>

text \<open>
  The file updater of the command line tool (\<^verbatim>\<open>packages/cli/src/utils/updaters/update-files.ts\<close>)
  works on JavaScript strings. A string is modelled as a \<^typ>\<open>string\<close>, one \<^typ>\<open>char\<close> per
  code unit, which covers the code units below 256. \<^verbatim>\<open>s.startsWith(p)\<close> is \<open>prefix p s\<close>,
  \<^verbatim>\<open>s.endsWith(p)\<close> is \<open>suffix p s\<close> and \<^verbatim>\<open>s.includes(p)\<close> is \<open>sublist p s\<close>.
\<close>

abbreviation startsWith :: "string \<Rightarrow> string \<Rightarrow> bool" where
  "startsWith s p \<equiv> prefix p s"

abbreviation endsWith :: "string \<Rightarrow> string \<Rightarrow> bool" where
  "endsWith s p \<equiv> suffix p s"

abbreviation str_includes :: "string \<Rightarrow> string \<Rightarrow> bool" where
  "str_includes s p \<equiv> sublist p s"

text \<open>\<^verbatim>\<open>s.split(sep)\<close> for a separator of one character: the result is never empty.\<close>

fun split_on :: "char \<Rightarrow> string \<Rightarrow> string list" where
  "split_on sep [] = [[]]"
| "split_on sep (c # cs) =
     (if c = sep then [] # split_on sep cs
      else (case split_on sep cs of
              [] \<Rightarrow> [[c]]
            | s # ss \<Rightarrow> (c # s) # ss))"

text \<open>\<^verbatim>\<open>segments.join(sep)\<close>.\<close>

fun join_with :: "string \<Rightarrow> string list \<Rightarrow> string" where
  "join_with sep [] = []"
| "join_with sep [s] = s"
| "join_with sep (s # t # ss) = s @ sep @ join_with sep (t # ss)"

text \<open>
  \<^verbatim>\<open>s.replace(pat, "")\<close> with a string pattern: only the first occurrence of the pattern,
  wherever it stands, is removed.
\<close>

fun remove_first :: "string \<Rightarrow> string \<Rightarrow> string" where
  "remove_first pat [] = []"
| "remove_first pat (c # cs) =
     (if prefix pat (c # cs) then drop (length pat) (c # cs)
      else c # remove_first pat cs)"

text \<open>\<^verbatim>\<open>s.replace(/^\//, "")\<close>: one leading slash is removed.\<close>

definition strip_leading_slash :: "string \<Rightarrow> string" where
  "strip_leading_slash s = (if startsWith s ''/'' then drop 1 s else s)"

text \<open>
  \<^verbatim>\<open>s.replace(/^prefix/, replacement)\<close> for a literal prefix, as the route rewriting uses it
  with \<^verbatim>\<open>/^app\//\<close>.
\<close>

definition replace_prefix :: "string \<Rightarrow> string \<Rightarrow> string \<Rightarrow> string" where
  "replace_prefix pre rep s = (if startsWith s pre then rep @ drop (length pre) s else s)"

section \<open>Common-root inference\<close>

text \<open>
  \<^verbatim>\<open>normalizedNeedle.split("/").slice(0, -1).join("/")\<close>: the directory of the needle, the
  needle being already without its leading slash.
\<close>

definition needleDir :: "string \<Rightarrow> string" where
  "needleDir normalizedNeedle = join_with ''/'' (butlast (split_on CHR ''/'' normalizedNeedle))"

text \<open>
  \<^verbatim>\<open>hasRelatedPaths\<close> of the loop body: some path other than the needle starts with the
  candidate followed by a slash.
\<close>

definition hasRelatedPaths :: "string list \<Rightarrow> string \<Rightarrow> string \<Rightarrow> bool" where
  "hasRelatedPaths normalizedPaths normalizedNeedle testPath =
     list_ex (\<lambda>p. p \<noteq> normalizedNeedle \<and> startsWith p (testPath @ ''/'')) normalizedPaths"

text \<open>
  The loop \<^verbatim>\<open>for (let i = needleSegments.length; i > 0; i--)\<close>; \<open>None\<close> when it runs to its
  end without returning.
\<close>

fun commonRootLoop :: "string list \<Rightarrow> string \<Rightarrow> string list \<Rightarrow> nat \<Rightarrow> string option" where
  "commonRootLoop normalizedPaths normalizedNeedle needleSegments 0 = None"
| "commonRootLoop normalizedPaths normalizedNeedle needleSegments (Suc i) =
     (let testPath = join_with ''/'' (take (Suc i) needleSegments) in
      if hasRelatedPaths normalizedPaths normalizedNeedle testPath then Some (''/'' @ testPath)
      else commonRootLoop normalizedPaths normalizedNeedle needleSegments i)"

definition findCommonRoot :: "string list \<Rightarrow> string \<Rightarrow> string" where
  "findCommonRoot paths needle =
     (let normalizedPaths = map strip_leading_slash paths;
          normalizedNeedle = strip_leading_slash needle;
          nd = needleDir normalizedNeedle
      in if nd = [] then []
         else (let needleSegments = split_on CHR ''/'' nd in
               case commonRootLoop normalizedPaths normalizedNeedle needleSegments
                      (length needleSegments) of
                 Some r \<Rightarrow> r
               | None \<Rightarrow> ''/'' @ nd))"

section \<open>Content normalisation\<close>

text \<open>
  \<^verbatim>\<open>content.replace(/\r\n/g, "\n").trim()\<close>. The white space that \<^verbatim>\<open>trim\<close> removes is, among
  the code units below 256: tab, line feed, vertical tab, form feed, carriage return, space
  and the no-break space.
\<close>

fun replace_crlf :: "string \<Rightarrow> string" where
  "replace_crlf [] = []"
| "replace_crlf [c] = [c]"
| "replace_crlf (c # d # cs) =
     (if c = CHR 0x0D \<and> d = CHR 0x0A then CHR 0x0A # replace_crlf cs
      else c # replace_crlf (d # cs))"

definition is_white_space :: "char \<Rightarrow> bool" where
  "is_white_space c \<longleftrightarrow>
     c \<in> set [CHR 0x09, CHR 0x0A, CHR 0x0B, CHR 0x0C, CHR 0x0D, CHR 0x20, CHR 0xA0]"

definition trim :: "string \<Rightarrow> string" where
  "trim s = rev (dropWhile is_white_space (rev (dropWhile is_white_space s)))"

definition getNormalizedFileContent :: "string \<Rightarrow> string" where
  "getNormalizedFileContent content = trim (replace_crlf content)"

section \<open>Route target rewriting\<close>

text \<open>
  \<^verbatim>\<open>result.replace(/\/page(\.[jt]sx?)$/, "$1")\<close>. The expression matches a whole rest of the
  string only, one of four; the leftmost position where it matches is replaced by the
  extension.
\<close>

definition match_page_suffix :: "string \<Rightarrow> string option" where
  "match_page_suffix s =
     (if s = ''/page.js'' then Some ''.js''
      else if s = ''/page.jsx'' then Some ''.jsx''
      else if s = ''/page.ts'' then Some ''.ts''
      else if s = ''/page.tsx'' then Some ''.tsx''
      else None)"

fun strip_page :: "string \<Rightarrow> string" where
  "strip_page [] = []"
| "strip_page (c # cs) =
     (case match_page_suffix (c # cs) of
        Some ext \<Rightarrow> ext
      | None \<Rightarrow> c # strip_page cs)"

text \<open>
  The framework name is optional in the source; \<^verbatim>\<open>!framework\<close> holds for an absent name and
  for the empty one.
\<close>

definition resolvePageTarget :: "string \<Rightarrow> string option \<Rightarrow> string" where
  "resolvePageTarget target framework =
     (if framework = None \<or> framework = Some [] then []
      else if framework = Some ''next-app'' then target
      else if framework = Some ''next-pages'' then
        strip_page (replace_prefix ''app/'' ''pages/'' target)
      else if framework = Some ''react-router'' then
        strip_page (replace_prefix ''app/'' ''app/routes/'' target)
      else if framework = Some ''laravel'' then
        strip_page (replace_prefix ''app/'' ''resources/js/pages/'' target)
      else [])"

section \<open>Paths\<close>

text \<open>
  The updater builds its paths with the \<^verbatim>\<open>path\<close> module of the platform (POSIX flavour).
  \<^verbatim>\<open>normalizeString\<close> walks the segments between slashes: empty segments and \<^verbatim>\<open>.\<close> are
  dropped, \<^verbatim>\<open>..\<close> removes the segment before it when there is one that is not \<^verbatim>\<open>..\<close>
  itself, and is kept only where the path may climb above its start.
\<close>

fun normalizeSegments :: "bool \<Rightarrow> string list \<Rightarrow> string list \<Rightarrow> string list" where
  "normalizeSegments allowAboveRoot res [] = res"
| "normalizeSegments allowAboveRoot res (seg # segs) =
     (if seg = [] \<or> seg = ''.'' then normalizeSegments allowAboveRoot res segs
      else if seg = ''..'' then
        (if res \<noteq> [] \<and> last res \<noteq> ''..'' then
           normalizeSegments allowAboveRoot (butlast res) segs
         else if allowAboveRoot then normalizeSegments allowAboveRoot (res @ [''..'']) segs
         else normalizeSegments allowAboveRoot res segs)
      else normalizeSegments allowAboveRoot (res @ [seg]) segs)"

definition normalizeString :: "string \<Rightarrow> bool \<Rightarrow> string" where
  "normalizeString p allowAboveRoot =
     join_with ''/'' (normalizeSegments allowAboveRoot [] (split_on CHR ''/'' p))"

definition path_normalize :: "string \<Rightarrow> string" where
  "path_normalize p =
     (if p = [] then ''.''
      else
        (let isAbsolute = startsWith p ''/'';
             trailingSeparator = endsWith p ''/'';
             q = normalizeString p (\<not> isAbsolute)
         in if q = [] then
              (if isAbsolute then ''/'' else if trailingSeparator then ''./'' else ''.'')
            else
              (let q' = (if trailingSeparator then q @ ''/'' else q)
               in if isAbsolute then ''/'' @ q' else q')))"

text \<open>\<^verbatim>\<open>path.join(...args)\<close>: the non-empty arguments, joined by slashes and normalised.\<close>

definition path_join :: "string list \<Rightarrow> string" where
  "path_join args =
     (let parts = filter (\<lambda>a. a \<noteq> []) args
      in if parts = [] then ''.'' else path_normalize (join_with ''/'' parts))"

text \<open>
  \<^verbatim>\<open>path.dirname(p)\<close>: trailing slashes are skipped, then everything before the last slash
  that stands after the first character is kept.
\<close>

definition path_dirname :: "string \<Rightarrow> string" where
  "path_dirname p =
     (case p of
        [] \<Rightarrow> ''.''
      | c # cs \<Rightarrow>
          (let hasRoot = (c = CHR ''/'');
               afterName = dropWhile (\<lambda>x. x \<noteq> CHR ''/'')
                             (dropWhile (\<lambda>x. x = CHR ''/'') (rev cs))
           in case afterName of
                [] \<Rightarrow> (if hasRoot then ''/'' else ''.'')
              | _ # front \<Rightarrow>
                  (if hasRoot \<and> front = [] then ''//'' else c # rev front)))"

text \<open>\<^verbatim>\<open>path.basename(p)\<close>: the last segment, trailing slashes apart.\<close>

definition path_basename :: "string \<Rightarrow> string" where
  "path_basename p =
     rev (takeWhile (\<lambda>x. x \<noteq> CHR ''/'') (dropWhile (\<lambda>x. x = CHR ''/'') (rev p)))"

text \<open>
  \<^verbatim>\<open>path.resolve(p)\<close> with one argument, \<open>processCwd\<close> being the working directory of the
  process, and \<^verbatim>\<open>path.relative(from, to)\<close>: both paths are resolved, their common leading
  segments are dropped, and the result climbs once per remaining segment of \<open>from\<close> before
  it descends along the remaining segments of \<open>to\<close>.
\<close>

definition path_resolve :: "string \<Rightarrow> string \<Rightarrow> string" where
  "path_resolve processCwd p =
     (let r1 = (if p = [] then [] else p @ ''/'');
          abs1 = (p \<noteq> [] \<and> startsWith p ''/'');
          r2 = (if abs1 \<or> processCwd = [] then r1 else processCwd @ ''/'' @ r1);
          abs2 = (abs1 \<or> (processCwd \<noteq> [] \<and> startsWith processCwd ''/''));
          n = normalizeString r2 (\<not> abs2)
      in if abs2 then ''/'' @ n else if n \<noteq> [] then n else ''.'')"

definition path_segments :: "string \<Rightarrow> string list" where
  "path_segments p = filter (\<lambda>s. s \<noteq> []) (split_on CHR ''/'' p)"

definition path_relative :: "string \<Rightarrow> string \<Rightarrow> string \<Rightarrow> string" where
  "path_relative processCwd from to =
     (if from = to then []
      else
        (let f = path_resolve processCwd from;
             t = path_resolve processCwd to
         in if f = t then []
            else
              (let fromSegs = path_segments f;
                   toSegs = path_segments t;
                   k = length (longest_common_prefix fromSegs toSegs)
               in join_with ''/''
                    (replicate (length fromSegs - k) ''..'' @ drop k toSegs))))"

section \<open>Registry files and project configuration\<close>

text \<open>
  A registry file has a path, a type, and optionally a target and a content. An optional
  string is falsy in the source when it is absent and when it is empty.
\<close>

record registry_file =
  file_path :: string
  file_type :: string
  file_target :: "string option"
  file_content :: "string option"

definition truthy :: "string option \<Rightarrow> bool" where
  "truthy v \<longleftrightarrow> (case v of None \<Rightarrow> False | Some s \<Rightarrow> s \<noteq> [])"

record resolved_paths =
  cwd :: string
  tiptapUi :: string
  tiptapUiPrimitives :: string
  tiptapExtensions :: string
  tiptapNodes :: string
  tiptapIcons :: string
  hooks :: string
  lib :: string
  contexts :: string
  components :: string
  styles :: string

record config =
  tsx :: bool
  resolvedPaths :: resolved_paths

record project_info =
  info_isSrcDir :: bool
  info_framework_name :: string

record resolve_options =
  isSrcDir :: "bool option"
  commonRoot :: "string option"
  framework :: "string option"

section \<open>Path resolution\<close>

definition resolveFileTargetDirectory :: "registry_file \<Rightarrow> config \<Rightarrow> string option \<Rightarrow> string" where
  "resolveFileTargetDirectory file config override =
     (if truthy override then the override
      else if file_type file = ''registry:ui'' then tiptapUi (resolvedPaths config)
      else if file_type file = ''registry:ui-primitive'' then
        tiptapUiPrimitives (resolvedPaths config)
      else if file_type file = ''registry:extension'' then
        tiptapExtensions (resolvedPaths config)
      else if file_type file = ''registry:node'' then tiptapNodes (resolvedPaths config)
      else if file_type file = ''registry:icon'' then tiptapIcons (resolvedPaths config)
      else if file_type file = ''registry:hook'' then hooks (resolvedPaths config)
      else if file_type file = ''registry:lib'' then lib (resolvedPaths config)
      else if file_type file = ''registry:context'' then contexts (resolvedPaths config)
      else if file_type file = ''registry:template'' \<or> file_type file = ''registry:component''
        then components (resolvedPaths config)
      else if file_type file = ''registry:style'' then styles (resolvedPaths config)
      else components (resolvedPaths config))"

text \<open>\<^verbatim>\<open>s.replace(/^\/|\/$/g, "")\<close>: one leading and one trailing slash are removed.\<close>

definition strip_outer_slashes :: "string \<Rightarrow> string" where
  "strip_outer_slashes s =
     (let s1 = strip_leading_slash s
      in if endsWith s1 ''/'' then butlast s1 else s1)"

definition resolveNestedFilePath :: "string \<Rightarrow> string \<Rightarrow> string" where
  "resolveNestedFilePath filePath targetDir =
     (let fileSegments = split_on CHR ''/'' (strip_outer_slashes filePath);
          targetSegments = split_on CHR ''/'' (strip_outer_slashes targetDir);
          lastTargetSegment = last targetSegments
      in case dropWhile (\<lambda>segment. segment \<noteq> lastTargetSegment) fileSegments of
           [] \<Rightarrow> last fileSegments
         | _ # back \<Rightarrow> join_with ''/'' back)"

text \<open>
  \<^verbatim>\<open>file.path.match(/tiptap-templates\/([^/]+)\/(.*)/)\<close>: at the leftmost position where
  \<^verbatim>\<open>tiptap-templates/\<close> is followed by a non-empty name and a slash, the name and the rest
  of the line after that slash. The shorter expression \<^verbatim>\<open>/tiptap-templates\/([^/]+)\//\<close>
  matches at the same position and gives the same name.
\<close>

definition is_line_terminator :: "char \<Rightarrow> bool" where
  "is_line_terminator c \<longleftrightarrow> c = CHR 0x0A \<or> c = CHR 0x0D"

definition template_match_here :: "string \<Rightarrow> (string \<times> string) option" where
  "template_match_here s =
     (if startsWith s ''tiptap-templates/'' then
        (let r = drop (length ''tiptap-templates/'') s;
             templateName = takeWhile (\<lambda>c. c \<noteq> CHR ''/'') r;
             rest = dropWhile (\<lambda>c. c \<noteq> CHR ''/'') r
         in if templateName \<noteq> [] \<and> rest \<noteq> [] then
              Some (templateName, takeWhile (\<lambda>c. \<not> is_line_terminator c) (tl rest))
            else None)
      else None)"

fun template_match :: "string \<Rightarrow> (string \<times> string) option" where
  "template_match [] = None"
| "template_match (c # cs) =
     (case template_match_here (c # cs) of
        Some m \<Rightarrow> Some m
      | None \<Rightarrow> template_match cs)"

text \<open>
  \<^verbatim>\<open>s.split(sep)[1]\<close> for a non-empty separator: what stands between the first occurrence
  of the separator and the next one, \<open>None\<close> when the separator does not occur.
\<close>

fun split_at_first :: "string \<Rightarrow> string \<Rightarrow> (string \<times> string) option" where
  "split_at_first sep [] = None"
| "split_at_first sep (c # cs) =
     (if prefix sep (c # cs) then Some ([], drop (length sep) (c # cs))
      else (case split_at_first sep cs of
              None \<Rightarrow> None
            | Some (front, back) \<Rightarrow> Some (c # front, back)))"

definition split_second :: "string \<Rightarrow> string \<Rightarrow> string option" where
  "split_second sep s =
     (case split_at_first sep s of
        None \<Rightarrow> None
      | Some (_, back) \<Rightarrow>
          (case split_at_first sep back of
             None \<Rightarrow> Some back
           | Some (front, _) \<Rightarrow> Some front))"

text \<open>
  The three parts of \<^verbatim>\<open>resolveFilePath\<close>, in the order of the source. The first two give
  \<open>None\<close> when the source falls through to the next part.
\<close>

definition resolveTemplateFile :: "registry_file \<Rightarrow> config \<Rightarrow> string option" where
  "resolveTemplateFile file config =
     (if \<not> truthy (file_target file)
         \<and> str_includes (file_path file) ''tiptap-templates/''
         \<and> file_type file \<noteq> ''registry:page''
      then
        (case template_match (file_path file) of
           None \<Rightarrow> None
         | Some (templateName, relativePath) \<Rightarrow>
             (if startsWith relativePath ''components/'' then
                Some (path_join [components (resolvedPaths config), ''tiptap-templates'',
                        templateName, remove_first ''components/'' relativePath])
              else
                Some (path_join [components (resolvedPaths config), ''tiptap-templates'',
                        templateName, relativePath])))
      else None)"

text \<open>
  In the second part \<^verbatim>\<open>file.target.split("/data/")[1]\<close> is defined, since the target
  includes the separator; the branch for \<open>None\<close> is never taken.
\<close>

definition resolveTemplateDataFile :: "registry_file \<Rightarrow> config \<Rightarrow> string option" where
  "resolveTemplateDataFile file config =
     (case file_target file of
        None \<Rightarrow> None
      | Some target \<Rightarrow>
          (if target \<noteq> []
              \<and> str_includes (file_path file) ''tiptap-templates/''
              \<and> str_includes target ''/data/''
           then
             (case template_match (file_path file) of
                None \<Rightarrow> None
              | Some (templateName, _) \<Rightarrow>
                  (case split_second ''/data/'' target of
                     None \<Rightarrow> None
                   | Some dataPath \<Rightarrow>
                       Some (path_join [components (resolvedPaths config), ''tiptap-templates'',
                               templateName, ''data'', dataPath])))
           else None))"

definition resolveExplicitTarget ::
  "registry_file \<Rightarrow> config \<Rightarrow> resolve_options \<Rightarrow> string \<Rightarrow> string" where
  "resolveExplicitTarget file config options fileTarget =
     (if startsWith fileTarget ''~/'' then
        path_join [cwd (resolvedPaths config), remove_first ''~/'' fileTarget]
      else
        (let target = (if file_type file = ''registry:page''
                       then resolvePageTarget fileTarget (framework options)
                       else fileTarget)
         in if file_type file = ''registry:page'' \<and> target = [] then []
            else if isSrcDir options = Some True then
              path_join [cwd (resolvedPaths config), ''src'', remove_first ''src/'' target]
            else
              path_join [cwd (resolvedPaths config), remove_first ''src/'' target]))"

definition resolveFilePath :: "registry_file \<Rightarrow> config \<Rightarrow> resolve_options \<Rightarrow> string" where
  "resolveFilePath file config options =
     (case resolveTemplateFile file config of
        Some p \<Rightarrow> p
      | None \<Rightarrow>
          (case resolveTemplateDataFile file config of
             Some p \<Rightarrow> p
           | None \<Rightarrow>
               (if truthy (file_target file) then
                  resolveExplicitTarget file config options (the (file_target file))
                else
                  (let targetDir = resolveFileTargetDirectory file config None;
                       relativePath = resolveNestedFilePath (file_path file) targetDir
                   in path_join [targetDir, relativePath]))))"

section \<open>The file system and the other collaborators\<close>

text \<open>
  The file system is a map from path strings to nodes; a path the map does not know does
  not exist. The calls of the updater are modelled as follows. \<^verbatim>\<open>existsSync\<close> holds for
  every known path. \<^verbatim>\<open>fs.readFile\<close> gives the content of a regular file and fails
  elsewhere. \<^verbatim>\<open>fs.mkdir(dir, {recursive: true})\<close> walks the directories from the outermost
  to \<open>dir\<close>, keeps those that exist, creates the missing ones, and fails at a regular
  file or where creation is denied. Its error names \<open>dir\<close>, the directory passed to the
  call, when a regular file is in the way, and the directory whose creation is denied
  otherwise. \<^verbatim>\<open>fs.writeFile\<close> replaces or creates a regular file in
  an existing directory and fails at a directory, under a missing or non-directory parent,
  or where writing is denied. A failed call leaves the map as it was at the failure.
\<close>

datatype node = File string | Dir

type_synonym filesystem = "string \<Rightarrow> node option"

datatype fs_error =
  EACCES string | EEXIST string | EISDIR string | ENOENT string | ENOTDIR string

definition existsSync :: "filesystem \<Rightarrow> string \<Rightarrow> bool" where
  "existsSync fs p \<longleftrightarrow> fs p \<noteq> None"

definition readFile :: "filesystem \<Rightarrow> string \<Rightarrow> fs_error + string" where
  "readFile fs p =
     (case fs p of
        None \<Rightarrow> Inl (ENOENT p)
      | Some Dir \<Rightarrow> Inl (EISDIR p)
      | Some (File data) \<Rightarrow> Inr data)"

definition dir_chain :: "string \<Rightarrow> string list" where
  "dir_chain d =
     (let segs = path_segments d;
          root = (if startsWith d ''/'' then ''/'' else [])
      in map (\<lambda>k. root @ join_with ''/'' (take k segs)) [1..<Suc (length segs)])"

fun mkdir_chain ::
  "(string \<Rightarrow> bool) \<Rightarrow> string \<Rightarrow> filesystem \<Rightarrow> string list
     \<Rightarrow> (fs_error \<times> filesystem) + filesystem" where
  "mkdir_chain denied dir fs [] = Inr fs"
| "mkdir_chain denied dir fs (d # ds) =
     (case fs d of
        Some Dir \<Rightarrow> mkdir_chain denied dir fs ds
      | Some (File data) \<Rightarrow> Inl (if ds = [] then EEXIST dir else ENOTDIR dir, fs)
      | None \<Rightarrow>
          (if denied d then Inl (EACCES d, fs)
           else mkdir_chain denied dir (fs(d \<mapsto> Dir)) ds))"

definition mkdir_recursive ::
  "(string \<Rightarrow> bool) \<Rightarrow> filesystem \<Rightarrow> string \<Rightarrow> (fs_error \<times> filesystem) + filesystem" where
  "mkdir_recursive denied fs dir = mkdir_chain denied dir fs (dir_chain dir)"

definition writeFile ::
  "(string \<Rightarrow> bool) \<Rightarrow> filesystem \<Rightarrow> string \<Rightarrow> string \<Rightarrow> fs_error + filesystem" where
  "writeFile denied fs p data =
     (case fs p of
        Some Dir \<Rightarrow> Inl (EISDIR p)
      | _ \<Rightarrow>
          (case fs (path_dirname p) of
             None \<Rightarrow> Inl (ENOENT p)
           | Some (File other) \<Rightarrow> Inl (ENOTDIR p)
           | Some Dir \<Rightarrow>
               (if denied p then Inl (EACCES p) else Inr (fs(p \<mapsto> File data)))))"

text \<open>
  What a run does to the outside is recorded as a trace of events: the calls to the file
  system, the confirmation prompts, and the lines of the closing summary. The spinner
  animation (start, stop, and the optional root spinner of the caller) shows nothing of
  its own and is left out.
\<close>

datatype message =
  NoFilesUpdated
| CreatedFiles nat string
| UpdatedFiles nat string
| SkippedFiles nat string

datatype event =
  GetProjectInfo string
| ExistsSync string
| ReadFile string
| Confirm string
| Mkdir string
| WriteFile string string
| SpinnerInfo message
| SpinnerSucceed message
| LoggerLog string
| LoggerBreak

text \<open>
  The collaborators that the updater calls and that are not part of it: the transform
  pipeline (a function of the file name, the raw content, the configuration and the JSX
  flag), the answer of the user to a confirmation prompt (a function of what has happened
  so far and of the file name shown; a prompt always gets an answer), the detection of the
  project (a function of the file system and of the project root), the working directory
  of the process, and the paths where creating or writing is denied.
\<close>

record env =
  transform :: "string \<Rightarrow> string \<Rightarrow> config \<Rightarrow> bool \<Rightarrow> string"
  confirm :: "event list \<Rightarrow> string \<Rightarrow> bool"
  getProjectInfo :: "filesystem \<Rightarrow> string \<Rightarrow> project_info option"
  processCwd :: string
  denied :: "string \<Rightarrow> bool"

text \<open>
  The options of the caller. \<^verbatim>\<open>overwrite\<close> and \<^verbatim>\<open>silent\<close> are optional and default to
  false; \<^verbatim>\<open>force\<close> is never read.
\<close>

record update_options =
  overwrite :: "bool option"
  force :: "bool option"
  silent :: "bool option"

record run_state =
  fsys :: filesystem
  filesCreated :: "string list"
  filesUpdated :: "string list"
  filesSkipped :: "string list"
  trace :: "event list"

definition init_state :: "filesystem \<Rightarrow> run_state" where
  "init_state fs =
     \<lparr>fsys = fs, filesCreated = [], filesUpdated = [], filesSkipped = [], trace = []\<rparr>"

definition emit :: "event list \<Rightarrow> run_state \<Rightarrow> run_state" where
  "emit evs s = s\<lparr>trace := trace s @ evs\<rparr>"

section \<open>Reconciliation\<close>

text \<open>
  \<^verbatim>\<open>filePath.replace(/\.tsx?$/, (match) => match === ".tsx" ? ".jsx" : ".js")\<close>.
\<close>

definition downgrade_extension :: "string \<Rightarrow> string" where
  "downgrade_extension p =
     (if endsWith p ''.tsx'' then take (length p - 4) p @ ''.jsx''
      else if endsWith p ''.ts'' then take (length p - 3) p @ ''.js''
      else p)"

text \<open>
  The path that the loop body resolves for a file, before the extension is adjusted: the
  options come from the detected project, and the common root is computed from the paths
  of the whole batch.
\<close>

definition resolvedPath ::
  "config \<Rightarrow> project_info option \<Rightarrow> registry_file list \<Rightarrow> registry_file \<Rightarrow> string" where
  "resolvedPath config projectInfo files file =
     resolveFilePath file config
       \<lparr>isSrcDir = map_option info_isSrcDir projectInfo,
        commonRoot = Some (findCommonRoot (map file_path files) (file_path file)),
        framework = map_option info_framework_name projectInfo\<rparr>"

definition finalPath ::
  "config \<Rightarrow> project_info option \<Rightarrow> registry_file list \<Rightarrow> registry_file \<Rightarrow> string" where
  "finalPath config projectInfo files file =
     (let filePath = resolvedPath config projectInfo files file
      in if \<not> tsx config then downgrade_extension filePath else filePath)"

definition newContent :: "env \<Rightarrow> config \<Rightarrow> registry_file \<Rightarrow> string" where
  "newContent E config file =
     transform E (file_path file) (the (file_content file)) config (\<not> tsx config)"

definition relativePath :: "env \<Rightarrow> config \<Rightarrow> string \<Rightarrow> string" where
  "relativePath E config filePath =
     path_relative (processCwd E) (cwd (resolvedPaths config)) filePath"

text \<open>
  Lines 140 to 143 of the source: the target directory is created when it is missing.
\<close>

definition ensureTargetDir ::
  "env \<Rightarrow> string \<Rightarrow> run_state \<Rightarrow> (fs_error \<times> run_state) + run_state" where
  "ensureTargetDir E targetDir s =
     (let s1 = emit [ExistsSync targetDir] s
      in if \<not> existsSync (fsys s1) targetDir then
           (case mkdir_recursive (denied E) (fsys s1) targetDir of
              Inl (e, fs') \<Rightarrow> Inl (e, emit [Mkdir targetDir] (s1\<lparr>fsys := fs'\<rparr>))
            | Inr fs' \<Rightarrow> Inr (emit [Mkdir targetDir] (s1\<lparr>fsys := fs'\<rparr>)))
         else Inr s1)"

text \<open>
  Lines 145 to 148: the file is written, and its relative path is recorded as updated or
  created. A failure of \<^verbatim>\<open>mkdir\<close> or \<^verbatim>\<open>writeFile\<close> is an exception that nothing in
  \<^verbatim>\<open>updateFiles\<close> catches.
\<close>

definition performWrite ::
  "env \<Rightarrow> config \<Rightarrow> string \<Rightarrow> string \<Rightarrow> string \<Rightarrow> bool \<Rightarrow> run_state
     \<Rightarrow> (fs_error \<times> run_state) + run_state" where
  "performWrite E config targetDir filePath content existingFile s =
     (case ensureTargetDir E targetDir s of
        Inl failure \<Rightarrow> Inl failure
      | Inr s2 \<Rightarrow>
          (let s3 = emit [WriteFile filePath content] s2
           in case writeFile (denied E) (fsys s3) filePath content of
                Inl e \<Rightarrow> Inl (e, s3)
              | Inr fs' \<Rightarrow>
                  (if existingFile then
                     Inr (s3\<lparr>fsys := fs',
                             filesUpdated := filesUpdated s3 @ [relativePath E config filePath]\<rparr>)
                   else
                     Inr (s3\<lparr>fsys := fs',
                             filesCreated := filesCreated s3 @ [relativePath E config filePath]\<rparr>))))"

text \<open>
  Lines 107 to 138: an existing file whose content differs is overwritten without a
  question when \<^verbatim>\<open>overwrite\<close> is set; otherwise the user is asked, and a refusal records the
  file as skipped.
\<close>

definition confirmAndWrite ::
  "env \<Rightarrow> config \<Rightarrow> update_options \<Rightarrow> string \<Rightarrow> string \<Rightarrow> string \<Rightarrow> string \<Rightarrow> bool
     \<Rightarrow> run_state \<Rightarrow> (fs_error \<times> run_state) + run_state" where
  "confirmAndWrite E config options fileName targetDir filePath content existingFile s =
     (if existingFile \<and> overwrite options \<noteq> Some True then
        (let answer = confirm E (trace s) fileName;
             s1 = emit [Confirm fileName] s
         in if \<not> answer then
              Inr (s1\<lparr>filesSkipped := filesSkipped s1 @ [relativePath E config filePath]\<rparr>)
            else performWrite E config targetDir filePath content existingFile s1)
      else performWrite E config targetDir filePath content existingFile s)"

text \<open>
  Lines 82 to 105: an existing file is read, and when its normalised content equals the
  normalised new content the file is recorded as skipped and the loop goes on.
\<close>

definition reconcile ::
  "env \<Rightarrow> config \<Rightarrow> update_options \<Rightarrow> string \<Rightarrow> string \<Rightarrow> string \<Rightarrow> string
     \<Rightarrow> run_state \<Rightarrow> (fs_error \<times> run_state) + run_state" where
  "reconcile E config options fileName targetDir filePath content s =
     (let existingFile = existsSync (fsys s) filePath;
          s1 = emit [ExistsSync filePath] s
      in if existingFile then
           (let s2 = emit [ReadFile filePath] s1
            in case readFile (fsys s2) filePath of
                 Inl e \<Rightarrow> Inl (e, s2)
               | Inr existingFileContent \<Rightarrow>
                   (if getNormalizedFileContent existingFileContent
                         = getNormalizedFileContent content
                    then Inr (s2\<lparr>filesSkipped :=
                                   filesSkipped s2 @ [relativePath E config filePath]\<rparr>)
                    else confirmAndWrite E config options fileName targetDir filePath content
                           existingFile s2))
         else confirmAndWrite E config options fileName targetDir filePath content
                existingFile s1)"

text \<open>The body of the loop over the files, lines 55 to 149.\<close>

definition updateFile ::
  "env \<Rightarrow> config \<Rightarrow> update_options \<Rightarrow> project_info option \<Rightarrow> registry_file list
     \<Rightarrow> registry_file \<Rightarrow> run_state \<Rightarrow> (fs_error \<times> run_state) + run_state" where
  "updateFile E config options projectInfo files file s =
     (if \<not> truthy (file_content file) then Inr s
      else
        (let filePath = resolvedPath config projectInfo files file
         in if filePath = [] then Inr s
            else
              reconcile E config options
                (path_basename (file_path file))
                (path_dirname filePath)
                (finalPath config projectInfo files file)
                (newContent E config file) s))"

fun updateLoop ::
  "env \<Rightarrow> config \<Rightarrow> update_options \<Rightarrow> project_info option \<Rightarrow> registry_file list
     \<Rightarrow> registry_file list \<Rightarrow> run_state \<Rightarrow> (fs_error \<times> run_state) + run_state" where
  "updateLoop E config options projectInfo files [] s = Inr s"
| "updateLoop E config options projectInfo files (file # rest) s =
     (case updateFile E config options projectInfo files file s of
        Inl failure \<Rightarrow> Inl failure
      | Inr s' \<Rightarrow> updateLoop E config options projectInfo files rest s')"

text \<open>
  Lines 151 to 205, the closing summary. The word after the number of skipped files is
  chosen by the number of updated files, as the source has it.
\<close>

definition plural :: "nat \<Rightarrow> string" where
  "plural n = (if n = 1 then ''file'' else ''files'')"

definition summary :: "update_options \<Rightarrow> run_state \<Rightarrow> event list" where
  "summary options s =
     (let quiet = (silent options = Some True);
          listing = (\<lambda>paths. if quiet then [] else map (\<lambda>f. LoggerLog (''  - '' @ f)) paths)
      in (if filesCreated s = [] \<and> filesUpdated s = [] \<and> filesSkipped s = []
          then [SpinnerInfo NoFilesUpdated] else [])
       @ (if filesCreated s \<noteq> [] then
            SpinnerSucceed (CreatedFiles (length (filesCreated s))
                              (plural (length (filesCreated s))))
              # listing (filesCreated s)
          else [])
       @ (if filesUpdated s \<noteq> [] then
            SpinnerInfo (UpdatedFiles (length (filesUpdated s))
                           (plural (length (filesUpdated s))))
              # listing (filesUpdated s)
          else [])
       @ (if filesSkipped s \<noteq> [] then
            SpinnerInfo (SkippedFiles (length (filesSkipped s))
                           (plural (length (filesUpdated s))))
              # listing (filesSkipped s)
          else [])
       @ (if quiet then [] else [LoggerBreak]))"

text \<open>
  \<^verbatim>\<open>updateFiles\<close>: the list of files is optional. A run either fails with the error of a
  file system call and the state reached at the failure, or returns the final state, whose
  three lists are the manifest.
\<close>

definition updateFiles ::
  "env \<Rightarrow> registry_file list option \<Rightarrow> config \<Rightarrow> update_options \<Rightarrow> filesystem
     \<Rightarrow> (fs_error \<times> run_state) + run_state" where
  "updateFiles E files config options fs =
     (case files of
        None \<Rightarrow> Inr (init_state fs)
      | Some [] \<Rightarrow> Inr (init_state fs)
      | Some (f # fs') \<Rightarrow>
          (let projectInfo = getProjectInfo E fs (cwd (resolvedPaths config));
               s0 = emit [GetProjectInfo (cwd (resolvedPaths config))] (init_state fs)
           in case updateLoop E config options projectInfo (f # fs') (f # fs') s0 of
                Inl failure \<Rightarrow> Inl failure
              | Inr s \<Rightarrow> Inr (emit (summary options s) s)))"

section \<open>Notions used to state the properties\<close>

text \<open>
  The segments of the directory of a needle, the candidate made of its first \<open>k\<close>
  segments, and what it means for a candidate to be shared: some path of the list, other
  than the needle once leading slashes are removed, starts with the candidate followed by
  a slash.
\<close>

definition needleSegments :: "string \<Rightarrow> string list" where
  "needleSegments needle = split_on CHR ''/'' (needleDir (strip_leading_slash needle))"

definition candidate :: "string \<Rightarrow> nat \<Rightarrow> string" where
  "candidate needle k = join_with ''/'' (take k (needleSegments needle))"

definition shares_prefix :: "string list \<Rightarrow> string \<Rightarrow> string \<Rightarrow> bool" where
  "shares_prefix paths needle cand \<longleftrightarrow>
     (\<exists>p \<in> set paths. strip_leading_slash p \<noteq> strip_leading_slash needle
        \<and> startsWith (strip_leading_slash p) (cand @ ''/''))"

text \<open>
  A file is processed when it has content and its path resolves; the other files are left
  out by the loop. A path is settled for a content when it holds a regular file whose
  normalised content equals the normalised content.
\<close>

definition processed ::
  "config \<Rightarrow> project_info option \<Rightarrow> registry_file list \<Rightarrow> registry_file \<Rightarrow> bool" where
  "processed config projectInfo files file \<longleftrightarrow>
     truthy (file_content file) \<and> resolvedPath config projectInfo files file \<noteq> []"

definition settled :: "filesystem \<Rightarrow> string \<Rightarrow> string \<Rightarrow> bool" where
  "settled fs filePath content \<longleftrightarrow>
     (case fs filePath of
        Some (File existing) \<Rightarrow>
          getNormalizedFileContent existing = getNormalizedFileContent content
      | _ \<Rightarrow> False)"

text \<open>
  The outcome of a file in a run, the entry a step appends to the list of its outcome, and
  the entries of one outcome among files labelled with their outcomes.
\<close>

datatype outcome = Created | Updated | Skipped

definition record_outcome :: "outcome option \<Rightarrow> string \<Rightarrow> run_state \<Rightarrow> run_state \<Rightarrow> bool" where
  "record_outcome l entry s s' \<longleftrightarrow>
     filesCreated s' = filesCreated s @ (if l = Some Created then [entry] else [])
   \<and> filesUpdated s' = filesUpdated s @ (if l = Some Updated then [entry] else [])
   \<and> filesSkipped s' = filesSkipped s @ (if l = Some Skipped then [entry] else [])"

definition entries ::
  "env \<Rightarrow> config \<Rightarrow> project_info option \<Rightarrow> registry_file list \<Rightarrow> outcome
     \<Rightarrow> (registry_file \<times> outcome option) list \<Rightarrow> string list" where
  "entries E config projectInfo files oc labelled =
     map (\<lambda>(file, l). relativePath E config (finalPath config projectInfo files file))
       (filter (\<lambda>(file, l). l = Some oc) labelled)"

text \<open>
  The write of a file is attempted in a state when its final path does not exist, or holds
  a regular file whose normalised content differs while \<^verbatim>\<open>overwrite\<close> is set or the user
  agrees. The events that then precede the check of the target directory are the
  existence check, the read of an existing file, and the prompt when there is one.
\<close>

definition write_attempted ::
  "env \<Rightarrow> update_options \<Rightarrow> string \<Rightarrow> string \<Rightarrow> string \<Rightarrow> run_state \<Rightarrow> bool" where
  "write_attempted E options fileName filePath content s \<longleftrightarrow>
     (case fsys s filePath of
        None \<Rightarrow> True
      | Some Dir \<Rightarrow> False
      | Some (File existing) \<Rightarrow>
          getNormalizedFileContent existing \<noteq> getNormalizedFileContent content
          \<and> (overwrite options = Some True
               \<or> confirm E (trace s @ [ExistsSync filePath, ReadFile filePath]) fileName))"

definition events_before_write ::
  "update_options \<Rightarrow> string \<Rightarrow> string \<Rightarrow> run_state \<Rightarrow> event list" where
  "events_before_write options fileName filePath s =
     (if fsys s filePath = None then [ExistsSync filePath]
      else if overwrite options = Some True then [ExistsSync filePath, ReadFile filePath]
      else [ExistsSync filePath, ReadFile filePath, Confirm fileName])"

text \<open>
  A batch is compatible when any two of its processed files that end at the same path
  bring the same content up to normalisation.
\<close>

definition compatible ::
  "env \<Rightarrow> config \<Rightarrow> project_info option \<Rightarrow> registry_file list \<Rightarrow> bool" where
  "compatible E config projectInfo files \<longleftrightarrow>
     (\<forall>f \<in> set files. \<forall>g \<in> set files.
        processed config projectInfo files f \<and> processed config projectInfo files g
        \<and> finalPath config projectInfo files f = finalPath config projectInfo files g
        \<longrightarrow> getNormalizedFileContent (newContent E config f)
              = getNormalizedFileContent (newContent E config g))"

section \<open>An example project\<close>

text \<open>
  A project rooted at \<^verbatim>\<open>/proj\<close> with a source directory, collaborators that leave the
  content as it is and refuse every overwrite, and a few registry files. They serve to run
  the updater on concrete batches.
\<close>

definition example_config :: config where
  "example_config =
     \<lparr>tsx = True,
      resolvedPaths =
        \<lparr>cwd = ''/proj'',
         tiptapUi = ''/proj/src/components/tiptap-ui'',
         tiptapUiPrimitives = ''/proj/src/components/tiptap-ui-primitive'',
         tiptapExtensions = ''/proj/src/components/tiptap-extension'',
         tiptapNodes = ''/proj/src/components/tiptap-node'',
         tiptapIcons = ''/proj/src/components/tiptap-icons'',
         hooks = ''/proj/src/hooks'',
         lib = ''/proj/src/lib'',
         contexts = ''/proj/src/contexts'',
         components = ''/proj/src/components'',
         styles = ''/proj/src/styles''\<rparr>\<rparr>"

definition example_info :: "project_info option" where
  "example_info = Some \<lparr>info_isSrcDir = True, info_framework_name = ''vite''\<rparr>"

definition example_env :: env where
  "example_env =
     \<lparr>transform = (\<lambda>filename raw config transformJsx. raw),
      confirm = (\<lambda>history fileName. False),
      getProjectInfo = (\<lambda>fs root. example_info),
      processCwd = ''/proj'',
      denied = (\<lambda>p. False)\<rparr>"

definition readonly_env :: env where
  "readonly_env = example_env\<lparr>denied := (\<lambda>p. p = ''/proj/src/lib/a.ts'')\<rparr>"

definition locked_env :: env where
  "locked_env = example_env\<lparr>denied := (\<lambda>p. p = ''/proj/src'')\<rparr>"

definition example_fs :: filesystem where
  "example_fs = [''/'' \<mapsto> Dir, ''/proj'' \<mapsto> Dir]"

definition example_options :: update_options where
  "example_options = \<lparr>overwrite = Some True, force = None, silent = None\<rparr>"

definition file_a :: registry_file where
  "file_a = \<lparr>file_path = ''x/a.ts'', file_type = ''registry:lib'',
             file_target = Some ''lib/a.ts'', file_content = Some ''A''\<rparr>"

definition file_a' :: registry_file where
  "file_a' = \<lparr>file_path = ''y/a.ts'', file_type = ''registry:lib'',
              file_target = Some ''lib/a.ts'', file_content = Some ''B''\<rparr>"

definition file_b :: registry_file where
  "file_b = \<lparr>file_path = ''x/b.ts'', file_type = ''registry:lib'',
             file_target = Some ''lib/b.ts'', file_content = Some ''B''\<rparr>"

definition file_page :: registry_file where
  "file_page = \<lparr>file_path = ''x/page.tsx'', file_type = ''registry:page'',
                file_target = Some ''app/x/page.tsx'', file_content = Some ''P''\<rparr>"

definition file_data :: registry_file where
  "file_data = \<lparr>file_path = ''tiptap-templates/simple/data/content.json'',
                file_type = ''registry:template'',
                file_target = Some ''lib/data/content.json'', file_content = Some ''{}''\<rparr>"

definition start_state :: run_state where
  "start_state = emit [GetProjectInfo ''/proj''] (init_state example_fs)"

definition src_options :: resolve_options where
  "src_options = \<lparr>isSrcDir = Some True, commonRoot = None, framework = Some ''next-app''\<rparr>"

definition file_src :: registry_file where
  "file_src = \<lparr>file_path = ''x/a.ts'', file_type = ''registry:lib'',
               file_target = Some ''src/lib/src/a.ts'', file_content = Some ''A''\<rparr>"

definition file_inner_src :: registry_file where
  "file_inner_src = \<lparr>file_path = ''x/a.ts'', file_type = ''registry:lib'',
               file_target = Some ''lib/src/a.ts'', file_content = Some ''A''\<rparr>"

definition crlf_text :: string where
  "crlf_text = [CHR ''a'', CHR 0x0D, CHR 0x0A, CHR ''b'', CHR 0x0D, CHR 0x0A]"

definition lf_text :: string where
  "lf_text = [CHR ''a'', CHR 0x0A, CHR ''b'']"

definition file_text :: registry_file where
  "file_text = \<lparr>file_path = ''x/t.txt'', file_type = ''registry:lib'',
               file_target = Some ''lib/t.txt'', file_content = Some lf_text\<rparr>"

definition text_state :: run_state where
  "text_state =
     init_state (example_fs(''/proj/src'' \<mapsto> Dir, ''/proj/src/lib'' \<mapsto> Dir,
                   ''/proj/src/lib/t.txt'' \<mapsto> File crlf_text))"

definition first_run :: "registry_file list \<Rightarrow> (fs_error \<times> run_state) + run_state" where
  "first_run files = updateFiles example_env (Some files) example_config example_options example_fs"

definition second_run :: "registry_file list \<Rightarrow> (fs_error \<times> run_state) + run_state" where
  "second_run files =
     updateFiles example_env (Some files) example_config example_options
       (fsys (projr (first_run files)))"

definition failing_run :: "(fs_error \<times> run_state) + run_state" where
  "failing_run =
     updateFiles readonly_env (Some [file_a, file_b]) example_config example_options example_fs"


section \<open>Properties of common-root inference\<close>

lemma hasRelatedPaths_shares:
  "hasRelatedPaths (map strip_leading_slash paths) (strip_leading_slash needle) cand
     = shares_prefix paths needle cand"
  by (auto simp: hasRelatedPaths_def shares_prefix_def list_ex_iff)

lemma commonRootLoop_found:
  assumes "1 \<le> k" "k \<le> i"
    and "hasRelatedPaths ps n (join_with ''/'' (take k segs))"
    and "\<And>j. k < j \<Longrightarrow> j \<le> i \<Longrightarrow> \<not> hasRelatedPaths ps n (join_with ''/'' (take j segs))"
  shows "commonRootLoop ps n segs i = Some (''/'' @ join_with ''/'' (take k segs))"
  using assms
proof (induction i)
  case 0
  then show ?case by simp
next
  case (Suc i)
  show ?case
  proof (cases "k = Suc i")
    case True
    with Suc.prems show ?thesis by simp
  next
    case False
    with Suc.prems have le: "k \<le> i" and lt: "k < Suc i" by simp_all
    from Suc.prems(4)[OF lt] have no: "\<not> hasRelatedPaths ps n (join_with ''/'' (take (Suc i) segs))"
      by simp
    have "commonRootLoop ps n segs i = Some (''/'' @ join_with ''/'' (take k segs))"
      using Suc.IH[OF Suc.prems(1) le Suc.prems(3)] Suc.prems(4) by simp
    with no show ?thesis by (simp add: Let_def)
  qed
qed

lemma commonRootLoop_none:
  assumes "\<And>j. 1 \<le> j \<Longrightarrow> j \<le> i \<Longrightarrow> \<not> hasRelatedPaths ps n (join_with ''/'' (take j segs))"
  shows "commonRootLoop ps n segs i = None"
  using assms by (induction i) (simp_all add: Let_def)

text \<open>
  Claim C4. \<^verbatim>\<open>findCommonRoot\<close> returns the empty string when the directory of the needle is
  empty. Otherwise it returns, behind a slash, the longest candidate prefix of the
  directory segments of the needle that is shared (a shared candidate of \<open>k\<close> segments
  above which no longer candidate is shared); when no candidate is shared, and so for the
  list that holds the needle alone, it returns the whole directory of the needle behind a
  slash.
\<close>

theorem findCommonRoot_longest_shared_prefix:
  "(needleDir (strip_leading_slash needle) = [] \<longrightarrow> findCommonRoot paths needle = [])
   \<and> (needleDir (strip_leading_slash needle) \<noteq> []
        \<and> 1 \<le> k \<and> k \<le> length (needleSegments needle)
        \<and> shares_prefix paths needle (candidate needle k)
        \<and> (\<forall>j. k < j \<and> j \<le> length (needleSegments needle)
               \<longrightarrow> \<not> shares_prefix paths needle (candidate needle j))
      \<longrightarrow> findCommonRoot paths needle = ''/'' @ candidate needle k)
   \<and> (needleDir (strip_leading_slash needle) \<noteq> []
        \<and> (\<forall>j. 1 \<le> j \<and> j \<le> length (needleSegments needle)
               \<longrightarrow> \<not> shares_prefix paths needle (candidate needle j))
      \<longrightarrow> findCommonRoot paths needle = ''/'' @ needleDir (strip_leading_slash needle))
   \<and> (needleDir (strip_leading_slash needle) \<noteq> []
      \<longrightarrow> findCommonRoot [needle] needle = ''/'' @ needleDir (strip_leading_slash needle))"
proof (intro conjI impI)
  assume "needleDir (strip_leading_slash needle) = []"
  then show "findCommonRoot paths needle = []"
    by (simp add: findCommonRoot_def)
next
  assume a: "needleDir (strip_leading_slash needle) \<noteq> []
        \<and> 1 \<le> k \<and> k \<le> length (needleSegments needle)
        \<and> shares_prefix paths needle (candidate needle k)
        \<and> (\<forall>j. k < j \<and> j \<le> length (needleSegments needle)
               \<longrightarrow> \<not> shares_prefix paths needle (candidate needle j))"
  have "commonRootLoop (map strip_leading_slash paths) (strip_leading_slash needle)
          (needleSegments needle) (length (needleSegments needle))
        = Some (''/'' @ join_with ''/'' (take k (needleSegments needle)))"
    using a by (intro commonRootLoop_found)
      (simp_all add: hasRelatedPaths_shares candidate_def)
  with a show "findCommonRoot paths needle = ''/'' @ candidate needle k"
    by (simp add: findCommonRoot_def needleSegments_def candidate_def)
next
  assume a: "needleDir (strip_leading_slash needle) \<noteq> []
        \<and> (\<forall>j. 1 \<le> j \<and> j \<le> length (needleSegments needle)
               \<longrightarrow> \<not> shares_prefix paths needle (candidate needle j))"
  have "commonRootLoop (map strip_leading_slash paths) (strip_leading_slash needle)
          (needleSegments needle) (length (needleSegments needle)) = None"
    using a by (intro commonRootLoop_none)
      (simp_all add: hasRelatedPaths_shares candidate_def)
  with a show "findCommonRoot paths needle = ''/'' @ needleDir (strip_leading_slash needle)"
    by (simp add: findCommonRoot_def needleSegments_def)
next
  assume a: "needleDir (strip_leading_slash needle) \<noteq> []"
  have "commonRootLoop (map strip_leading_slash [needle]) (strip_leading_slash needle)
          (needleSegments needle) (length (needleSegments needle)) = None"
    by (intro commonRootLoop_none) (simp add: hasRelatedPaths_def)
  with a show "findCommonRoot [needle] needle = ''/'' @ needleDir (strip_leading_slash needle)"
    by (simp add: findCommonRoot_def needleSegments_def)
qed

theorem findCommonRoot_longest_shared_prefix_witness:
  "needleDir (strip_leading_slash ''a/b/c.ts'') \<noteq> []
   \<and> shares_prefix [''a/b/c.ts'', ''a/e.ts''] ''a/b/c.ts'' (candidate ''a/b/c.ts'' 1)
   \<and> \<not> shares_prefix [''a/b/c.ts'', ''a/e.ts''] ''a/b/c.ts'' (candidate ''a/b/c.ts'' 2)
   \<and> findCommonRoot [''a/b/c.ts'', ''a/e.ts''] ''a/b/c.ts'' = ''/a''
   \<and> findCommonRoot [''a/b/c.ts''] ''a/b/c.ts'' = ''/a/b''
   \<and> findCommonRoot [''c.ts''] ''c.ts'' = []"
  using findCommonRoot_longest_shared_prefix[of "''a/b/c.ts''" "[''a/b/c.ts'', ''a/e.ts'']" 1]
    findCommonRoot_longest_shared_prefix[of "''c.ts''" "[''c.ts'']" 1]
  by (simp add: needleDir_def strip_leading_slash_def needleSegments_def candidate_def
      shares_prefix_def)

section \<open>Properties of route target rewriting\<close>

lemma match_page_suffix_long:
  "length s > 9 \<Longrightarrow> match_page_suffix s = None"
  by (auto simp: match_page_suffix_def)

lemma strip_page_append:
  assumes "ext \<in> set [''.js'', ''.jsx'', ''.ts'', ''.tsx'']"
  shows "strip_page (pre @ ''/page'' @ ext) = pre @ ext"
proof (induction pre)
  case Nil
  from assms show ?case by (auto simp: match_page_suffix_def)
next
  case (Cons c pre)
  have "match_page_suffix (c # pre @ ''/page'' @ ext) = None"
  proof (cases pre)
    case Nil
    with assms show ?thesis by (auto simp: match_page_suffix_def)
  next
    case (Cons d pre')
    with assms show ?thesis by (intro match_page_suffix_long) auto
  qed
  with Cons.IH show ?case by simp
qed

text \<open>
  Claim C3, as the code has it. For a target \<^verbatim>\<open>app/<segments>/page.<ext>\<close> whose extension is
  one of \<^verbatim>\<open>js\<close>, \<^verbatim>\<open>jsx\<close>, \<^verbatim>\<open>ts\<close> and \<^verbatim>\<open>tsx\<close>: \<^verbatim>\<open>next-app\<close> leaves the target as it is;
  \<^verbatim>\<open>next-pages\<close>, \<^verbatim>\<open>react-router\<close> and \<^verbatim>\<open>laravel\<close> replace the leading \<^verbatim>\<open>app/\<close> by \<^verbatim>\<open>pages/\<close>,
  \<^verbatim>\<open>app/routes/\<close> and \<^verbatim>\<open>resources/js/pages/\<close> and drop \<^verbatim>\<open>/page\<close> before the extension. For
  every target, an absent framework and a framework outside these four give the empty
  string.
\<close>

theorem resolvePageTarget_rewrites:
  assumes "ext \<in> set [''js'', ''jsx'', ''ts'', ''tsx'']"
  shows "resolvePageTarget (''app/'' @ segments @ ''/page.'' @ ext) (Some ''next-app'')
           = ''app/'' @ segments @ ''/page.'' @ ext
       \<and> resolvePageTarget (''app/'' @ segments @ ''/page.'' @ ext) (Some ''next-pages'')
           = ''pages/'' @ segments @ ''.'' @ ext
       \<and> resolvePageTarget (''app/'' @ segments @ ''/page.'' @ ext) (Some ''react-router'')
           = ''app/routes/'' @ segments @ ''.'' @ ext
       \<and> resolvePageTarget (''app/'' @ segments @ ''/page.'' @ ext) (Some ''laravel'')
           = ''resources/js/pages/'' @ segments @ ''.'' @ ext
       \<and> resolvePageTarget target None = []
       \<and> (fw \<notin> set [''next-app'', ''next-pages'', ''react-router'', ''laravel'']
            \<longrightarrow> resolvePageTarget target (Some fw) = [])"
proof -
  from assms have e: "''.'' @ ext \<in> set [''.js'', ''.jsx'', ''.ts'', ''.tsx'']" by auto
  have s: "strip_page (pre @ segments @ ''/page.'' @ ext) = pre @ segments @ ''.'' @ ext" for pre
    using strip_page_append[OF e, of "pre @ segments"] by simp
  show ?thesis
    using s[of "''pages/''"] s[of "''app/routes/''"] s[of "''resources/js/pages/''"]
    by (simp add: resolvePageTarget_def replace_prefix_def)
qed

theorem resolvePageTarget_rewrites_witness:
  "''tsx'' \<in> set [''js'', ''jsx'', ''ts'', ''tsx'']
   \<and> resolvePageTarget ''app/settings/page.tsx'' (Some ''next-pages'') = ''pages/settings.tsx''
   \<and> resolvePageTarget ''app/settings/page.tsx'' (Some ''next-app'') = ''app/settings/page.tsx''
   \<and> resolvePageTarget ''app/settings/page.tsx'' (Some ''unknown-fw'') = []"
  using resolvePageTarget_rewrites[of "''tsx''" "''settings''" "''app/settings/page.tsx''"
      "''unknown-fw''"]
  by simp

text \<open>
  The claim as it is written speaks of every extension. With the extension \<^verbatim>\<open>mdx\<close> the
  expression \<^verbatim>\<open>/\/page(\.[jt]sx?)$/\<close> does not match, and \<^verbatim>\<open>/page\<close> stays.
\<close>

theorem resolvePageTarget_other_extension_counterexample:
  "resolvePageTarget ''app/docs/page.mdx'' (Some ''next-pages'') = ''pages/docs/page.mdx''
   \<and> resolvePageTarget ''app/docs/page.mdx'' (Some ''next-pages'') \<noteq> ''pages/docs.mdx''"
  by (simp add: resolvePageTarget_def replace_prefix_def match_page_suffix_def)

section \<open>Properties of path resolution\<close>

lemma remove_first_prefix: "prefix pat s \<Longrightarrow> remove_first pat s = drop (length pat) s"
  by (cases s) auto

lemma remove_first_absent: "\<not> sublist pat s \<Longrightarrow> remove_first pat s = s"
  by (induction s) (auto simp: sublist_Cons_right)

text \<open>
  Claim C5, as the code has it. Take a file with a non-empty explicit target that does not
  start with \<^verbatim>\<open>~/\<close> and that is not a data file of a template (its path names a template
  and its target contains \<^verbatim>\<open>/data/\<close>); for a page, take the rewritten target, which is not
  empty. When this target starts with \<^verbatim>\<open>src/\<close> or does not contain \<^verbatim>\<open>src/\<close> at all,
  \<^verbatim>\<open>resolveFilePath\<close> joins the project root, and \<^verbatim>\<open>src\<close> when the project has a source
  directory, with the target without its leading \<^verbatim>\<open>src/\<close>; what follows the leading
  \<^verbatim>\<open>src/\<close> is kept as it is, later occurrences of \<^verbatim>\<open>src/\<close> included.
\<close>

theorem resolveFilePath_explicit_target:
  assumes "file_target file = Some fileTarget" and "fileTarget \<noteq> []"
    and "\<not> startsWith fileTarget ''~/''"
    and "\<not> (str_includes (file_path file) ''tiptap-templates/''
            \<and> str_includes fileTarget ''/data/''
            \<and> template_match (file_path file) \<noteq> None)"
    and "target = (if file_type file = ''registry:page''
                   then resolvePageTarget fileTarget (framework options) else fileTarget)"
    and "target \<noteq> []"
    and "startsWith target ''src/'' \<or> \<not> str_includes target ''src/''"
  shows "resolveFilePath file config options =
           (if isSrcDir options = Some True
            then path_join [cwd (resolvedPaths config), ''src'',
                   if startsWith target ''src/'' then drop 4 target else target]
            else path_join [cwd (resolvedPaths config),
                   if startsWith target ''src/'' then drop 4 target else target])"
proof -
  have tf: "resolveTemplateFile file config = None"
    using assms(1,2) by (simp add: resolveTemplateFile_def truthy_def)
  have df: "resolveTemplateDataFile file config = None"
    using assms(1,4) by (auto simp: resolveTemplateDataFile_def split: option.splits)
  have strip: "remove_first ''src/'' target
      = (if startsWith target ''src/'' then drop 4 target else target)"
    using assms(7) remove_first_prefix[of "''src/''" target]
      remove_first_absent[of "''src/''" target] by (auto simp: eval_nat_numeral)
  have "resolveFilePath file config options
      = resolveExplicitTarget file config options fileTarget"
    using tf df assms(1,2) by (simp add: resolveFilePath_def truthy_def)
  also have "\<dots> = (if isSrcDir options = Some True
            then path_join [cwd (resolvedPaths config), ''src'', remove_first ''src/'' target]
            else path_join [cwd (resolvedPaths config), remove_first ''src/'' target])"
    using assms(3,5,6) by (simp add: resolveExplicitTarget_def Let_def)
  finally show ?thesis unfolding strip .
qed

theorem resolveFilePath_explicit_target_witness:
  "startsWith ''src/lib/src/a.ts'' ''src/''
   \<and> resolveFilePath file_src example_config src_options = ''/proj/src/lib/src/a.ts''"
proof -
  have h: "file_target file_src = Some ''src/lib/src/a.ts''" "''src/lib/src/a.ts'' \<noteq> []"
    "\<not> startsWith ''src/lib/src/a.ts'' ''~/''"
    "\<not> (str_includes (file_path file_src) ''tiptap-templates/''
            \<and> str_includes ''src/lib/src/a.ts'' ''/data/''
            \<and> template_match (file_path file_src) \<noteq> None)"
    "''src/lib/src/a.ts'' = (if file_type file_src = ''registry:page''
        then resolvePageTarget ''src/lib/src/a.ts'' (framework src_options)
        else ''src/lib/src/a.ts'')"
    "startsWith ''src/lib/src/a.ts'' ''src/'' \<or> \<not> str_includes ''src/lib/src/a.ts'' ''src/''"
    by code_simp+
  have v: "path_join [cwd (resolvedPaths example_config), ''src'', drop 4 ''src/lib/src/a.ts'']
      = ''/proj/src/lib/src/a.ts''" "isSrcDir src_options = Some True"
    by code_simp+
  from resolveFilePath_explicit_target[OF h(1-5) h(2) h(6), of example_config] v h(6)
  show ?thesis by simp
qed

text \<open>
  The claim as it is written covers every explicit target. A data file of a template is
  resolved earlier, under the components directory of the template.
\<close>

theorem resolveFilePath_template_data_counterexample:
  "resolveFilePath file_data example_config src_options
     = ''/proj/src/components/tiptap-templates/simple/data/content.json''
   \<and> resolveFilePath file_data example_config src_options
     \<noteq> path_join [''/proj'', ''src'', ''lib/data/content.json'']"
  by code_simp

text \<open>
  Outside the cases above, a target that contains \<^verbatim>\<open>src/\<close> further in and does not start
  with it loses that occurrence.
\<close>

lemma resolveFilePath_inner_src_example:
  "resolveFilePath file_inner_src example_config src_options = ''/proj/src/lib/a.ts''"
  by code_simp

text \<open>
  Claim C9. Two option records that agree on \<^verbatim>\<open>isSrcDir\<close> and \<^verbatim>\<open>framework\<close> give the same
  resolved path, whatever their \<^verbatim>\<open>commonRoot\<close>; and the path that the loop of \<^verbatim>\<open>updateFiles\<close>
  resolves for a file is the one it would resolve with any other common root.
\<close>

theorem resolveFilePath_ignores_commonRoot:
  assumes "isSrcDir options1 = isSrcDir options2" and "framework options1 = framework options2"
  shows "resolveFilePath file config options1 = resolveFilePath file config options2
       \<and> resolvedPath config projectInfo files file
           = resolveFilePath file config
               \<lparr>isSrcDir = map_option info_isSrcDir projectInfo,
                commonRoot = root,
                framework = map_option info_framework_name projectInfo\<rparr>"
  using assms
  by (auto simp: resolveFilePath_def resolveExplicitTarget_def resolvedPath_def Let_def
      split: option.splits)

theorem resolveFilePath_ignores_commonRoot_witness:
  "isSrcDir src_options = isSrcDir (src_options\<lparr>commonRoot := Some ''/elsewhere''\<rparr>)
   \<and> resolveFilePath file_src example_config src_options
       = resolveFilePath file_src example_config (src_options\<lparr>commonRoot := Some ''/elsewhere''\<rparr>)"
  using resolveFilePath_ignores_commonRoot[of src_options
      "src_options\<lparr>commonRoot := Some ''/elsewhere''\<rparr>" file_src example_config]
  by simp

section \<open>Properties of a step of the loop\<close>

lemma mkdir_chain_preserves:
  "mkdir_chain dn dir fs ds = Inr fs' \<Longrightarrow> fs q = Some n \<Longrightarrow> fs' q = Some n"
proof (induction ds arbitrary: fs)
  case Nil
  then show ?case by simp
next
  case (Cons d ds)
  show ?case
  proof (cases "fs d")
    case None
    with Cons.prems have "q \<noteq> d" by auto
    with Cons.prems None show ?thesis
      by (auto split: if_splits intro: Cons.IH)
  next
    case (Some nd)
    with Cons.prems show ?thesis
      by (cases nd) (auto intro: Cons.IH)
  qed
qed

lemma mkdir_chain_failure_preserves:
  "mkdir_chain dn dir fs ds = Inl (e, fs') \<Longrightarrow> fs q = Some n \<Longrightarrow> fs' q = Some n"
proof (induction ds arbitrary: fs)
  case Nil
  then show ?case by simp
next
  case (Cons d ds)
  show ?case
  proof (cases "fs d")
    case None
    with Cons.prems have "q \<noteq> d" by auto
    with Cons.prems None show ?thesis
      by (auto split: if_splits intro: Cons.IH)
  next
    case (Some nd)
    with Cons.prems show ?thesis
      by (cases nd) (auto intro: Cons.IH)
  qed
qed

lemma ensureTargetDir_Inr:
  assumes "ensureTargetDir E targetDir s = Inr s2"
  shows "\<And>q n. fsys s q = Some n \<Longrightarrow> fsys s2 q = Some n"
    and "filesCreated s2 = filesCreated s" and "filesUpdated s2 = filesUpdated s"
    and "filesSkipped s2 = filesSkipped s"
  using assms
  by (auto simp: ensureTargetDir_def Let_def emit_def mkdir_recursive_def
      split: if_splits sum.splits dest: mkdir_chain_preserves)

lemma performWrite_Inr:
  assumes "performWrite E config targetDir filePath content ex s = Inr s'"
  shows "fsys s' filePath = Some (File content)"
    and "\<And>q n. q \<noteq> filePath \<Longrightarrow> fsys s q = Some n \<Longrightarrow> fsys s' q = Some n"
    and "record_outcome (Some (if ex then Updated else Created))
           (relativePath E config filePath) s s'"
proof -
  obtain s2 where s2: "ensureTargetDir E targetDir s = Inr s2"
    using assms by (auto simp: performWrite_def split: sum.splits)
  note keep = ensureTargetDir_Inr(1)[OF s2] and lists = ensureTargetDir_Inr(2-4)[OF s2]
  obtain fs' where w: "writeFile (denied E) (fsys s2) filePath content = Inr fs'"
    and s': "s' = (if ex then (emit [WriteFile filePath content] s2)\<lparr>fsys := fs',
                filesUpdated := filesUpdated s2 @ [relativePath E config filePath]\<rparr>
              else (emit [WriteFile filePath content] s2)\<lparr>fsys := fs',
                filesCreated := filesCreated s2 @ [relativePath E config filePath]\<rparr>)"
    using assms s2 by (auto simp: performWrite_def Let_def emit_def split: sum.splits if_splits)
  from w have fs': "fs' = (fsys s2)(filePath \<mapsto> File content)"
    by (auto simp: writeFile_def split: option.splits node.splits if_splits)
  show "fsys s' filePath = Some (File content)"
    using s' fs' by (simp add: emit_def)
  show "fsys s' q = Some n" if "q \<noteq> filePath" "fsys s q = Some n" for q n
    using s' fs' keep[OF that(2)] that(1) by (simp add: emit_def)
  show "record_outcome (Some (if ex then Updated else Created))
           (relativePath E config filePath) s s'"
    using s' lists by (simp add: record_outcome_def emit_def)
qed

lemma confirmAndWrite_Inr:
  assumes "confirmAndWrite E config options fileName targetDir filePath content ex s = Inr s'"
  shows "\<And>q n. q \<noteq> filePath \<Longrightarrow> fsys s q = Some n \<Longrightarrow> fsys s' q = Some n"
    and "\<exists>l. l \<noteq> None \<and> record_outcome l (relativePath E config filePath) s s'"
    and "overwrite options = Some True \<Longrightarrow> fsys s' filePath = Some (File content)"
proof -
  consider (declined) "ex" "overwrite options \<noteq> Some True" "\<not> confirm E (trace s) fileName"
      "s' = (emit [Confirm fileName] s)\<lparr>filesSkipped := filesSkipped s @ [relativePath E config filePath]\<rparr>"
    | (asked) "performWrite E config targetDir filePath content ex (emit [Confirm fileName] s) = Inr s'"
    | (direct) "performWrite E config targetDir filePath content ex s = Inr s'"
    using assms by (auto simp: confirmAndWrite_def Let_def emit_def split: if_splits)
  note cases = this
  show "fsys s' q = Some n" if "q \<noteq> filePath" "fsys s q = Some n" for q n
    using cases that performWrite_Inr(2)[of E config targetDir filePath content ex _ s' q n]
    by cases (auto simp: emit_def)
  show "\<exists>l. l \<noteq> None \<and> record_outcome l (relativePath E config filePath) s s'"
  proof (use cases in cases)
    case declined
    then have "record_outcome (Some Skipped) (relativePath E config filePath) s s'"
      by (simp add: record_outcome_def emit_def)
    then show ?thesis by blast
  next
    case asked
    from performWrite_Inr(3)[OF this]
    have "record_outcome (Some (if ex then Updated else Created))
            (relativePath E config filePath) s s'"
      by (simp add: record_outcome_def emit_def)
    then show ?thesis by blast
  next
    case direct
    from performWrite_Inr(3)[OF this] show ?thesis by blast
  qed
  show "fsys s' filePath = Some (File content)" if "overwrite options = Some True"
    using cases that performWrite_Inr(1)[of E config targetDir filePath content ex _ s']
    by cases auto
qed

lemma reconcile_skip:
  assumes "fsys s filePath = Some (File existing)"
    and "getNormalizedFileContent existing = getNormalizedFileContent content"
  shows "reconcile E config options fileName targetDir filePath content s
    = Inr (s\<lparr>filesSkipped := filesSkipped s @ [relativePath E config filePath],
             trace := trace s @ [ExistsSync filePath, ReadFile filePath]\<rparr>)"
  using assms by (simp add: reconcile_def existsSync_def readFile_def emit_def Let_def)

lemma reconcile_Inr:
  assumes "reconcile E config options fileName targetDir filePath content s = Inr s'"
  shows "\<And>q n. q \<noteq> filePath \<Longrightarrow> fsys s q = Some n \<Longrightarrow> fsys s' q = Some n"
    and "\<exists>l. l \<noteq> None \<and> record_outcome l (relativePath E config filePath) s s'"
    and "overwrite options = Some True \<Longrightarrow> settled (fsys s') filePath content"
proof -
  consider (same) existing where "fsys s filePath = Some (File existing)"
      "getNormalizedFileContent existing = getNormalizedFileContent content"
      "s' = s\<lparr>filesSkipped := filesSkipped s @ [relativePath E config filePath],
             trace := trace s @ [ExistsSync filePath, ReadFile filePath]\<rparr>"
    | (differs) "confirmAndWrite E config options fileName targetDir filePath content True
         (emit [ReadFile filePath] (emit [ExistsSync filePath] s)) = Inr s'"
    | (fresh) "confirmAndWrite E config options fileName targetDir filePath content False
         (emit [ExistsSync filePath] s) = Inr s'"
    using assms
    by (auto simp: reconcile_def Let_def emit_def existsSync_def readFile_def
        split: if_splits sum.splits option.splits node.splits)
  note cases = this
  show "fsys s' q = Some n" if "q \<noteq> filePath" "fsys s q = Some n" for q n
    using cases that
      confirmAndWrite_Inr(1)[of E config options fileName targetDir filePath content _ _ s' q n]
    by cases (auto simp: emit_def)
  show "\<exists>l. l \<noteq> None \<and> record_outcome l (relativePath E config filePath) s s'"
  proof (use cases in cases)
    case same
    then have "record_outcome (Some Skipped) (relativePath E config filePath) s s'"
      by (simp add: record_outcome_def)
    then show ?thesis by blast
  next
    case differs
    from confirmAndWrite_Inr(2)[OF this] show ?thesis
      by (simp add: record_outcome_def emit_def)
  next
    case fresh
    from confirmAndWrite_Inr(2)[OF this] show ?thesis
      by (simp add: record_outcome_def emit_def)
  qed
  show "settled (fsys s') filePath content" if "overwrite options = Some True"
    using cases that
      confirmAndWrite_Inr(3)[of E config options fileName targetDir filePath content _ _ s']
    by cases (auto simp: settled_def)
qed

lemma updateLoop_append:
  "updateLoop E config options projectInfo files (xs @ ys) s =
     (case updateLoop E config options projectInfo files xs s of
        Inl failure \<Rightarrow> Inl failure
      | Inr s' \<Rightarrow> updateLoop E config options projectInfo files ys s')"
  by (induction xs arbitrary: s) (auto split: sum.splits)

lemma updateFile_excluded:
  "\<not> processed config projectInfo files fl \<Longrightarrow>
     updateFile E config options projectInfo files fl s = Inr s"
  by (auto simp: updateFile_def processed_def Let_def)

lemma updateFile_processed:
  "processed config projectInfo files fl \<Longrightarrow>
     updateFile E config options projectInfo files fl s =
       reconcile E config options (path_basename (file_path fl))
         (path_dirname (resolvedPath config projectInfo files fl))
         (finalPath config projectInfo files fl) (newContent E config fl) s"
  by (auto simp: updateFile_def processed_def Let_def)

lemma updateFile_Inr:
  assumes "updateFile E config options projectInfo files fl s = Inr s'"
  shows "\<And>q n. q \<noteq> finalPath config projectInfo files fl \<Longrightarrow> fsys s q = Some n
           \<Longrightarrow> fsys s' q = Some n"
    and "\<exists>l. (l \<noteq> None \<longrightarrow> processed config projectInfo files fl)
           \<and> record_outcome l
               (relativePath E config (finalPath config projectInfo files fl)) s s'"
    and "overwrite options = Some True \<Longrightarrow> processed config projectInfo files fl \<Longrightarrow>
           settled (fsys s') (finalPath config projectInfo files fl) (newContent E config fl)"
proof -
  show "fsys s' q = Some n"
    if "q \<noteq> finalPath config projectInfo files fl" "fsys s q = Some n" for q n
  proof (cases "processed config projectInfo files fl")
    case True
    with assms that show ?thesis
      by (auto simp: updateFile_processed dest: reconcile_Inr(1))
  next
    case False
    with assms that show ?thesis by (simp add: updateFile_excluded)
  qed
  show "\<exists>l. (l \<noteq> None \<longrightarrow> processed config projectInfo files fl)
           \<and> record_outcome l
               (relativePath E config (finalPath config projectInfo files fl)) s s'"
  proof (cases "processed config projectInfo files fl")
    case True
    with assms reconcile_Inr(2) show ?thesis
      by (fastforce simp: updateFile_processed)
  next
    case False
    with assms have "s' = s" by (simp add: updateFile_excluded)
    then have "record_outcome None
        (relativePath E config (finalPath config projectInfo files fl)) s s'"
      by (simp add: record_outcome_def)
    then show ?thesis by blast
  qed
  show "settled (fsys s') (finalPath config projectInfo files fl) (newContent E config fl)"
    if "overwrite options = Some True" "processed config projectInfo files fl"
    using assms that by (auto simp: updateFile_processed dest: reconcile_Inr(3))
qed

text \<open>
  Claim C7. A file whose content is absent, and a file whose path resolves to the empty
  string, leaves the state of the run as it is: nothing is written, no list grows, and the
  loop goes on with the next file.
\<close>

theorem excluded_file_changes_nothing:
  assumes "file_content file = None \<or> resolvedPath config projectInfo files file = []"
  shows "updateFile E config options projectInfo files file s = Inr s
       \<and> updateLoop E config options projectInfo files (file # rest) s
           = updateLoop E config options projectInfo files rest s"
proof -
  have "\<not> processed config projectInfo files file"
    using assms by (auto simp: processed_def truthy_def)
  then have "updateFile E config options projectInfo files file s = Inr s"
    by (rule updateFile_excluded)
  then show ?thesis by simp
qed

theorem excluded_file_changes_nothing_witness:
  "resolvedPath example_config example_info [file_page, file_a] file_page = []
   \<and> updateFile example_env example_config example_options example_info [file_page, file_a]
       file_page start_state = Inr start_state"
proof -
  have h: "resolvedPath example_config example_info [file_page, file_a] file_page = []"
    by code_simp
  then have "file_content file_page = None
      \<or> resolvedPath example_config example_info [file_page, file_a] file_page = []" ..
  from excluded_file_changes_nothing[OF this] h show ?thesis by simp
qed

text \<open>
  Claim C6. When the loop reaches a file with content whose final path holds a regular file,
  and the existing content equals the transformed content after normalisation, the step
  appends the relative path to the skipped list and the existence check and the read to
  the trace, and nothing else: no prompt, no directory creation, no write; the file system
  and the other two lists stay as they are. Normalisation identifies the text with CRLF
  line ends and a trailing line break with the text with LF line ends.
\<close>

theorem unchanged_content_is_skipped:
  assumes "truthy (file_content file)"
    and "resolvedPath config projectInfo files file \<noteq> []"
    and "filePath = finalPath config projectInfo files file"
    and "fsys s filePath = Some (File existing)"
    and "getNormalizedFileContent existing
           = getNormalizedFileContent (newContent E config file)"
    and "s' = s\<lparr>filesSkipped := filesSkipped s @ [relativePath E config filePath],
                trace := trace s @ [ExistsSync filePath, ReadFile filePath]\<rparr>"
  shows "updateFile E config options projectInfo files file s = Inr s'
       \<and> updateLoop E config options projectInfo files (file # rest) s
           = updateLoop E config options projectInfo files rest s'
       \<and> fsys s' = fsys s
       \<and> filesCreated s' = filesCreated s \<and> filesUpdated s' = filesUpdated s
       \<and> getNormalizedFileContent [CHR ''a'', CHR 0x0D, CHR 0x0A, CHR ''b'', CHR 0x0D, CHR 0x0A]
           = getNormalizedFileContent [CHR ''a'', CHR 0x0A, CHR ''b'']"
proof -
  have p: "processed config projectInfo files file"
    using assms(1,2) by (simp add: processed_def)
  have step: "updateFile E config options projectInfo files file s = Inr s'"
    using assms(3-6) by (simp add: updateFile_processed[OF p] reconcile_skip)
  have n: "getNormalizedFileContent [CHR ''a'', CHR 0x0D, CHR 0x0A, CHR ''b'', CHR 0x0D, CHR 0x0A]
           = getNormalizedFileContent [CHR ''a'', CHR 0x0A, CHR ''b'']"
    by (simp add: getNormalizedFileContent_def trim_def is_white_space_def)
  from step n assms(6) show ?thesis by simp
qed

theorem unchanged_content_is_skipped_witness:
  "fsys text_state ''/proj/src/lib/t.txt'' = Some (File crlf_text)
   \<and> getNormalizedFileContent crlf_text
       = getNormalizedFileContent (newContent example_env example_config file_text)
   \<and> updateFile example_env example_config \<lparr>overwrite = None, force = None, silent = None\<rparr>
        example_info [file_text] file_text text_state
       = Inr (text_state\<lparr>filesSkipped := [''src/lib/t.txt''],
                          trace := [ExistsSync ''/proj/src/lib/t.txt'', ReadFile ''/proj/src/lib/t.txt'']\<rparr>)"
proof -
  have h: "truthy (file_content file_text)"
    "resolvedPath example_config example_info [file_text] file_text \<noteq> []"
    "''/proj/src/lib/t.txt'' = finalPath example_config example_info [file_text] file_text"
    "fsys text_state ''/proj/src/lib/t.txt'' = Some (File crlf_text)"
    "getNormalizedFileContent crlf_text
       = getNormalizedFileContent (newContent example_env example_config file_text)"
    by code_simp+
  have v: "filesSkipped text_state = []" "trace text_state = []"
    "relativePath example_env example_config ''/proj/src/lib/t.txt'' = ''src/lib/t.txt''"
    by code_simp+
  from unchanged_content_is_skipped[OF h refl] h(4,5) v show ?thesis by simp
qed

section \<open>Properties of a run\<close>

text \<open>
  Claim C10. For an absent and for an empty list of files \<^verbatim>\<open>updateFiles\<close> returns at once:
  the three lists are empty, the file system is the one it was given, and the trace is
  empty, so that no file system call, no prompt and no summary has taken place.
\<close>

theorem updateFiles_empty_batch:
  "updateFiles E None config options fs
     = Inr \<lparr>fsys = fs, filesCreated = [], filesUpdated = [], filesSkipped = [], trace = []\<rparr>
   \<and> updateFiles E (Some []) config options fs
     = Inr \<lparr>fsys = fs, filesCreated = [], filesUpdated = [], filesSkipped = [], trace = []\<rparr>"
  by (simp add: updateFiles_def init_state_def)

theorem updateFiles_empty_batch_witness:
  "updateFiles example_env (Some []) example_config example_options example_fs
     = Inr \<lparr>fsys = example_fs, filesCreated = [], filesUpdated = [], filesSkipped = [],
            trace = []\<rparr>"
  using updateFiles_empty_batch[of example_env example_config example_options example_fs]
  by simp

lemma ensureTargetDir_exists:
  "fsys s targetDir \<noteq> None \<Longrightarrow>
     ensureTargetDir E targetDir s = Inr (s\<lparr>trace := trace s @ [ExistsSync targetDir]\<rparr>)"
  by (auto simp: ensureTargetDir_def Let_def emit_def existsSync_def)

lemma ensureTargetDir_created:
  "fsys s targetDir = None \<Longrightarrow> mkdir_recursive (denied E) (fsys s) targetDir = Inr fs1 \<Longrightarrow>
     ensureTargetDir E targetDir s
       = Inr (s\<lparr>fsys := fs1, trace := trace s @ [ExistsSync targetDir, Mkdir targetDir]\<rparr>)"
  by (simp add: ensureTargetDir_def Let_def emit_def existsSync_def)

lemma ensureTargetDir_fails:
  "fsys s targetDir = None \<Longrightarrow>
     mkdir_recursive (denied E) (fsys s) targetDir = Inl (e, fs') \<Longrightarrow>
     ensureTargetDir E targetDir s
       = Inl (e, s\<lparr>fsys := fs', trace := trace s @ [ExistsSync targetDir, Mkdir targetDir]\<rparr>)"
  by (simp add: ensureTargetDir_def Let_def emit_def existsSync_def)

lemma reconcile_attempted:
  assumes "write_attempted E options fileName filePath content s"
  shows "reconcile E config options fileName targetDir filePath content s
     = performWrite E config targetDir filePath content (fsys s filePath \<noteq> None)
         (s\<lparr>trace := trace s @ events_before_write options fileName filePath s\<rparr>)"
proof (cases "fsys s filePath")
  case None
  then show ?thesis
    by (simp add: reconcile_def confirmAndWrite_def existsSync_def emit_def Let_def
        events_before_write_def)
next
  case (Some nd)
  with assms obtain existing where
    e: "fsys s filePath = Some (File existing)"
      "getNormalizedFileContent existing \<noteq> getNormalizedFileContent content"
      "overwrite options = Some True
         \<or> confirm E (trace s @ [ExistsSync filePath, ReadFile filePath]) fileName"
    by (cases nd) (auto simp: write_attempted_def)
  then show ?thesis
    by (auto simp: reconcile_def confirmAndWrite_def existsSync_def readFile_def emit_def
        Let_def events_before_write_def)
qed

lemma reconcile_read_fails:
  "fsys s filePath = Some Dir \<Longrightarrow>
     reconcile E config options fileName targetDir filePath content s
       = Inl (EISDIR filePath, s\<lparr>trace := trace s @ [ExistsSync filePath, ReadFile filePath]\<rparr>)"
  by (simp add: reconcile_def existsSync_def readFile_def emit_def Let_def)

lemma updateFiles_stops:
  assumes "files = pre @ fl # rest"
    and "projectInfo = getProjectInfo E fs (cwd (resolvedPaths config))"
    and "updateLoop E config options projectInfo files pre
           (emit [GetProjectInfo (cwd (resolvedPaths config))] (init_state fs)) = Inr s"
    and "updateFile E config options projectInfo files fl s = Inl failure"
  shows "updateFiles E (Some files) config options fs = Inl failure"
proof -
  have "updateLoop E config options projectInfo files (pre @ fl # rest)
           (emit [GetProjectInfo (cwd (resolvedPaths config))] (init_state fs)) = Inl failure"
    using assms(3,4) by (simp add: updateLoop_append)
  moreover obtain f fs' where "files = f # fs'"
    using assms(1) by (cases pre) auto
  ultimately show ?thesis
    using assms(1,2) by (simp add: updateFiles_def Let_def)
qed

text \<open>
  Claim C2, as the code has it. Let the loop have reached a file with content and a resolved
  path, in the state \<open>s\<close> that the files before it left. When the final path is a
  directory, the read fails; when the write is attempted and the target directory is
  missing and cannot be created, \<^verbatim>\<open>mkdir\<close> fails; when the write is attempted and the
  directory exists or has been created, and the file cannot be written, \<^verbatim>\<open>writeFile\<close> fails.
  In each case the whole run fails with the error of the failed call, whatever files follow
  in the batch: no manifest is returned, and the state at the failure is \<open>s\<close> with the
  events up to the failed call added to the trace and with the file system as that call
  left it, in which every path known in \<open>s\<close> is as it was.
\<close>

theorem updateFiles_failure_aborts:
  assumes "files = pre @ file # rest"
    and "projectInfo = getProjectInfo E fs (cwd (resolvedPaths config))"
    and "updateLoop E config options projectInfo files pre
           (emit [GetProjectInfo (cwd (resolvedPaths config))] (init_state fs)) = Inr s"
    and "truthy (file_content file)"
    and "resolvedPath config projectInfo files file \<noteq> []"
    and "fileName = path_basename (file_path file)"
    and "targetDir = path_dirname (resolvedPath config projectInfo files file)"
    and "filePath = finalPath config projectInfo files file"
    and "content = newContent E config file"
    and "evs = events_before_write options fileName filePath s"
  shows
    "(fsys s filePath = Some Dir \<longrightarrow>
        updateFiles E (Some files) config options fs
          = Inl (EISDIR filePath,
                 s\<lparr>trace := trace s @ [ExistsSync filePath, ReadFile filePath]\<rparr>))
   \<and> (write_attempted E options fileName filePath content s
        \<and> fsys s targetDir = None
        \<and> mkdir_recursive (denied E) (fsys s) targetDir = Inl (e, fs') \<longrightarrow>
        updateFiles E (Some files) config options fs
          = Inl (e, s\<lparr>fsys := fs',
                       trace := trace s @ evs @ [ExistsSync targetDir, Mkdir targetDir]\<rparr>)
        \<and> (\<forall>q n. fsys s q = Some n \<longrightarrow> fs' q = Some n))
   \<and> (write_attempted E options fileName filePath content s
        \<and> fsys s targetDir = None
        \<and> mkdir_recursive (denied E) (fsys s) targetDir = Inr fs1
        \<and> writeFile (denied E) fs1 filePath content = Inl e \<longrightarrow>
        updateFiles E (Some files) config options fs
          = Inl (e, s\<lparr>fsys := fs1,
                       trace := trace s @ evs @ [ExistsSync targetDir, Mkdir targetDir,
                                                 WriteFile filePath content]\<rparr>)
        \<and> (\<forall>q n. fsys s q = Some n \<longrightarrow> fs1 q = Some n))
   \<and> (write_attempted E options fileName filePath content s
        \<and> fsys s targetDir \<noteq> None
        \<and> writeFile (denied E) (fsys s) filePath content = Inl e \<longrightarrow>
        updateFiles E (Some files) config options fs
          = Inl (e, s\<lparr>trace := trace s @ evs @ [ExistsSync targetDir,
                                                 WriteFile filePath content]\<rparr>))"
proof -
  have p: "processed config projectInfo files file"
    using assms(4,5) by (simp add: processed_def)
  have step: "updateFile E config options projectInfo files file s
      = reconcile E config options fileName targetDir filePath content s"
    using assms(6-9) by (simp add: updateFile_processed[OF p])
  note stops = updateFiles_stops[OF assms(1-3)]
  let ?b = "s\<lparr>trace := trace s @ evs\<rparr>"
  have att: "reconcile E config options fileName targetDir filePath content s
      = performWrite E config targetDir filePath content (fsys s filePath \<noteq> None) ?b"
    if "write_attempted E options fileName filePath content s"
    using reconcile_attempted[OF that] assms(10) by simp
  show ?thesis
  proof (intro conjI impI)
    assume "fsys s filePath = Some Dir"
    then show "updateFiles E (Some files) config options fs
          = Inl (EISDIR filePath,
                 s\<lparr>trace := trace s @ [ExistsSync filePath, ReadFile filePath]\<rparr>)"
      by (intro stops) (simp add: step reconcile_read_fails)
  next
    assume a: "write_attempted E options fileName filePath content s
        \<and> fsys s targetDir = None
        \<and> mkdir_recursive (denied E) (fsys s) targetDir = Inl (e, fs')"
    then have "ensureTargetDir E targetDir ?b
        = Inl (e, ?b\<lparr>fsys := fs', trace := trace ?b @ [ExistsSync targetDir, Mkdir targetDir]\<rparr>)"
      by (intro ensureTargetDir_fails) simp_all
    then show "updateFiles E (Some files) config options fs
          = Inl (e, s\<lparr>fsys := fs',
                       trace := trace s @ evs @ [ExistsSync targetDir, Mkdir targetDir]\<rparr>)"
      using a by (intro stops) (simp add: step att performWrite_def)
  next
    assume a: "write_attempted E options fileName filePath content s
        \<and> fsys s targetDir = None
        \<and> mkdir_recursive (denied E) (fsys s) targetDir = Inl (e, fs')"
    then show "\<forall>q n. fsys s q = Some n \<longrightarrow> fs' q = Some n"
      by (auto simp: mkdir_recursive_def dest: mkdir_chain_failure_preserves)
  next
    assume a: "write_attempted E options fileName filePath content s
        \<and> fsys s targetDir = None
        \<and> mkdir_recursive (denied E) (fsys s) targetDir = Inr fs1
        \<and> writeFile (denied E) fs1 filePath content = Inl e"
    then have "ensureTargetDir E targetDir ?b
        = Inr (?b\<lparr>fsys := fs1, trace := trace ?b @ [ExistsSync targetDir, Mkdir targetDir]\<rparr>)"
      by (intro ensureTargetDir_created) simp_all
    then show "updateFiles E (Some files) config options fs
          = Inl (e, s\<lparr>fsys := fs1,
                       trace := trace s @ evs @ [ExistsSync targetDir, Mkdir targetDir,
                                                 WriteFile filePath content]\<rparr>)"
      using a by (intro stops) (simp add: step att performWrite_def emit_def Let_def)
  next
    assume a: "write_attempted E options fileName filePath content s
        \<and> fsys s targetDir = None
        \<and> mkdir_recursive (denied E) (fsys s) targetDir = Inr fs1
        \<and> writeFile (denied E) fs1 filePath content = Inl e"
    then show "\<forall>q n. fsys s q = Some n \<longrightarrow> fs1 q = Some n"
      by (auto simp: mkdir_recursive_def dest: mkdir_chain_preserves)
  next
    assume a: "write_attempted E options fileName filePath content s
        \<and> fsys s targetDir \<noteq> None
        \<and> writeFile (denied E) (fsys s) filePath content = Inl e"
    then have "ensureTargetDir E targetDir ?b
        = Inr (?b\<lparr>trace := trace ?b @ [ExistsSync targetDir]\<rparr>)"
      by (intro ensureTargetDir_exists) simp
    then show "updateFiles E (Some files) config options fs
          = Inl (e, s\<lparr>trace := trace s @ evs @ [ExistsSync targetDir,
                                                 WriteFile filePath content]\<rparr>)"
      using a by (intro stops) (simp add: step att performWrite_def emit_def Let_def)
  qed
qed

theorem updateFiles_failure_aborts_witness:
  "write_attempted readonly_env example_options ''a.ts'' ''/proj/src/lib/a.ts'' ''A''
     (projr (updateLoop readonly_env example_config example_options example_info
               [file_b, file_a, file_text] [file_b] start_state))
   \<and> writeFile (denied readonly_env)
        (fsys (projr (updateLoop readonly_env example_config example_options example_info
                        [file_b, file_a, file_text] [file_b] start_state)))
        ''/proj/src/lib/a.ts'' ''A'' = Inl (EACCES ''/proj/src/lib/a.ts'')
   \<and> isl (updateFiles readonly_env (Some [file_b, file_a, file_text]) example_config
            example_options example_fs)
   \<and> fst (projl (updateFiles readonly_env (Some [file_b, file_a, file_text]) example_config
                    example_options example_fs)) = EACCES ''/proj/src/lib/a.ts''
   \<and> write_attempted locked_env example_options ''a.ts'' ''/proj/src/lib/a.ts'' ''A''
        start_state
   \<and> isl (mkdir_recursive (denied locked_env) (fsys start_state) ''/proj/src/lib'')
   \<and> isl (updateFiles locked_env (Some [file_a, file_b]) example_config example_options
            example_fs)
   \<and> fst (projl (updateFiles locked_env (Some [file_a, file_b]) example_config
                    example_options example_fs)) = EACCES ''/proj/src''"
proof -
  let ?files = "[file_b, file_a, file_text]"
  let ?before = "updateLoop readonly_env example_config example_options example_info
                   ?files [file_b] start_state"
  let ?s = "projr ?before"
  have c: "cwd (resolvedPaths example_config) = ''/proj''" by code_simp
  have pi: "example_info
      = getProjectInfo readonly_env example_fs (cwd (resolvedPaths example_config))"
    by code_simp
  have "\<not> isl ?before" by code_simp
  then have "?before = Inr ?s" by (cases ?before) auto
  then have pre: "updateLoop readonly_env example_config example_options example_info
           ?files [file_b]
           (emit [GetProjectInfo (cwd (resolvedPaths example_config))] (init_state example_fs))
           = Inr ?s"
    by (simp add: start_state_def c)
  have h: "truthy (file_content file_a)"
    "resolvedPath example_config example_info ?files file_a \<noteq> []"
    "''a.ts'' = path_basename (file_path file_a)"
    "''/proj/src/lib'' = path_dirname (resolvedPath example_config example_info ?files file_a)"
    "''/proj/src/lib/a.ts'' = finalPath example_config example_info ?files file_a"
    "''A'' = newContent readonly_env example_config file_a"
    by code_simp+
  let ?w = "writeFile (denied readonly_env) (fsys ?s) ''/proj/src/lib/a.ts'' ''A''"
  have w0: "isl ?w" "projl ?w = EACCES ''/proj/src/lib/a.ts''" by code_simp+
  have w: "write_attempted readonly_env example_options ''a.ts'' ''/proj/src/lib/a.ts'' ''A'' ?s"
    "fsys ?s ''/proj/src/lib'' \<noteq> None"
    "?w = Inl (EACCES ''/proj/src/lib/a.ts'')"
    using w0 by (code_simp, code_simp, cases ?w) auto
  have f: "?files = [file_b] @ file_a # [file_text]" by simp
  from updateFiles_failure_aborts[where e = "EACCES ''/proj/src/lib/a.ts''",
      OF f pi pre h refl, THEN conjunct2, THEN conjunct2, THEN conjunct2] w
  have run1: "updateFiles readonly_env (Some ?files) example_config example_options example_fs
      = Inl (EACCES ''/proj/src/lib/a.ts'',
             ?s\<lparr>trace := trace ?s
                @ events_before_write example_options ''a.ts'' ''/proj/src/lib/a.ts'' ?s
                @ [ExistsSync ''/proj/src/lib'', WriteFile ''/proj/src/lib/a.ts'' ''A'']\<rparr>)"
    by blast
  let ?files2 = "[file_a, file_b]"
  let ?m = "mkdir_recursive (denied locked_env) (fsys start_state) ''/proj/src/lib''"
  have pi2: "example_info
      = getProjectInfo locked_env example_fs (cwd (resolvedPaths example_config))"
    by code_simp
  have pre2: "updateLoop locked_env example_config example_options example_info ?files2 []
           (emit [GetProjectInfo (cwd (resolvedPaths example_config))] (init_state example_fs))
           = Inr start_state"
    by (simp add: start_state_def c)
  have h2: "truthy (file_content file_a)"
    "resolvedPath example_config example_info ?files2 file_a \<noteq> []"
    "''a.ts'' = path_basename (file_path file_a)"
    "''/proj/src/lib'' = path_dirname (resolvedPath example_config example_info ?files2 file_a)"
    "''/proj/src/lib/a.ts'' = finalPath example_config example_info ?files2 file_a"
    "''A'' = newContent locked_env example_config file_a"
    by code_simp+
  have w2: "write_attempted locked_env example_options ''a.ts'' ''/proj/src/lib/a.ts'' ''A''
              start_state"
    "fsys start_state ''/proj/src/lib'' = None"
    "isl ?m" "fst (projl ?m) = EACCES ''/proj/src''"
    by code_simp+
  from w2(3) have m: "?m = Inl (fst (projl ?m), snd (projl ?m))" by (cases ?m) auto
  have f2: "?files2 = [] @ file_a # [file_b]" by simp
  from updateFiles_failure_aborts[where e = "fst (projl ?m)" and fs' = "snd (projl ?m)",
      OF f2 pi2 pre2 h2 refl, THEN conjunct2, THEN conjunct1] w2(1,2) m
  have run2: "updateFiles locked_env (Some ?files2) example_config example_options example_fs
      = Inl (fst (projl ?m),
             start_state\<lparr>fsys := snd (projl ?m), trace := trace start_state
                @ events_before_write example_options ''a.ts'' ''/proj/src/lib/a.ts'' start_state
                @ [ExistsSync ''/proj/src/lib'', Mkdir ''/proj/src/lib'']\<rparr>)"
    by blast
  have r1: "isl (updateFiles readonly_env (Some ?files) example_config example_options example_fs)"
    "fst (projl (updateFiles readonly_env (Some ?files) example_config example_options
                   example_fs)) = EACCES ''/proj/src/lib/a.ts''"
    unfolding run1 by simp_all
  have r2: "isl (updateFiles locked_env (Some ?files2) example_config example_options example_fs)"
    "fst (projl (updateFiles locked_env (Some ?files2) example_config example_options
                   example_fs)) = EACCES ''/proj/src''"
    unfolding run2 using w2(4) by simp_all
  from w(1,3) r1 w2(1,3) r2 show ?thesis by blast
qed

text \<open>
  The claim as it is written lets the run go on after a failed write. In the example the
  write of the first file is denied: the run fails with that error, and the second file,
  which has content and resolves to a path, is neither looked up nor written.
\<close>

theorem failure_isolation_counterexample:
  "isl failing_run
   \<and> fst (projl failing_run) = EACCES ''/proj/src/lib/a.ts''
   \<and> truthy (file_content file_b)
   \<and> finalPath example_config example_info [file_a, file_b] file_b = ''/proj/src/lib/b.ts''
   \<and> fsys (snd (projl failing_run)) ''/proj/src/lib/b.ts'' = None
   \<and> ExistsSync ''/proj/src/lib/b.ts'' \<notin> set (trace (snd (projl failing_run)))"
  by code_simp

lemma updateLoop_labels:
  assumes "updateLoop E config options projectInfo files rest s = Inr s'"
  shows "\<exists>ls. length ls = length rest
    \<and> (\<forall>(fl, l) \<in> set (zip rest ls). l \<noteq> None \<longrightarrow> processed config projectInfo files fl)
    \<and> filesCreated s' = filesCreated s @ entries E config projectInfo files Created (zip rest ls)
    \<and> filesUpdated s' = filesUpdated s @ entries E config projectInfo files Updated (zip rest ls)
    \<and> filesSkipped s' = filesSkipped s @ entries E config projectInfo files Skipped (zip rest ls)"
  using assms
proof (induction rest arbitrary: s)
  case Nil
  then show ?case by (simp add: entries_def)
next
  case (Cons fl rest)
  from Cons.prems obtain s1 where
    step: "updateFile E config options projectInfo files fl s = Inr s1"
    and loop: "updateLoop E config options projectInfo files rest s1 = Inr s'"
    by (auto split: sum.splits)
  from updateFile_Inr(2)[OF step] obtain l where
    l: "l \<noteq> None \<longrightarrow> processed config projectInfo files fl"
    and r: "record_outcome l
              (relativePath E config (finalPath config projectInfo files fl)) s s1"
    by blast
  from Cons.IH[OF loop] obtain ls where
    ls: "length ls = length rest"
      "\<forall>(fl, l) \<in> set (zip rest ls). l \<noteq> None \<longrightarrow> processed config projectInfo files fl"
      "filesCreated s' = filesCreated s1 @ entries E config projectInfo files Created (zip rest ls)"
      "filesUpdated s' = filesUpdated s1 @ entries E config projectInfo files Updated (zip rest ls)"
      "filesSkipped s' = filesSkipped s1 @ entries E config projectInfo files Skipped (zip rest ls)"
    by blast
  have "length (l # ls) = length (fl # rest)" using ls(1) by simp
  moreover have "\<forall>(f, k) \<in> set (zip (fl # rest) (l # ls)).
      k \<noteq> None \<longrightarrow> processed config projectInfo files f"
    using l ls(2) by auto
  moreover have
    "filesCreated s' = filesCreated s
        @ entries E config projectInfo files Created (zip (fl # rest) (l # ls))"
    "filesUpdated s' = filesUpdated s
        @ entries E config projectInfo files Updated (zip (fl # rest) (l # ls))"
    "filesSkipped s' = filesSkipped s
        @ entries E config projectInfo files Skipped (zip (fl # rest) (l # ls))"
    using r ls(3-5) by (auto simp: record_outcome_def entries_def)
  ultimately show ?case by blast
qed

lemma filter_three_le:
  assumes "\<And>x. \<not> (P x \<and> Q x)" "\<And>x. \<not> (P x \<and> R x)" "\<And>x. \<not> (Q x \<and> R x)"
  shows "length (filter P xs) + length (filter Q xs) + length (filter R xs) \<le> length xs"
  using assms by (induction xs) auto

text \<open>
  Claim C8. In a run that returns, the files of the batch can be labelled, each with at most
  one outcome, so that each of the three lists holds the relative paths of the files with
  its outcome, in the order of the batch. So a file contributes at most one entry to the
  three lists together.
\<close>

theorem manifest_invariant:
  assumes "updateFiles E (Some files) config options fs = Inr s"
    and "projectInfo = getProjectInfo E fs (cwd (resolvedPaths config))"
  shows "\<exists>ls. length ls = length files
     \<and> filesCreated s = entries E config projectInfo files Created (zip files ls)
     \<and> filesUpdated s = entries E config projectInfo files Updated (zip files ls)
     \<and> filesSkipped s = entries E config projectInfo files Skipped (zip files ls)
     \<and> length (filesCreated s) + length (filesUpdated s) + length (filesSkipped s)
         \<le> length files"
proof -
  have "\<exists>ls. length ls = length files
     \<and> filesCreated s = entries E config projectInfo files Created (zip files ls)
     \<and> filesUpdated s = entries E config projectInfo files Updated (zip files ls)
     \<and> filesSkipped s = entries E config projectInfo files Skipped (zip files ls)"
  proof (cases files)
    case Nil
    with assms(1) show ?thesis
      by (auto simp: updateFiles_def init_state_def entries_def)
  next
    case (Cons f rest)
    with assms obtain t where
      loop: "updateLoop E config options projectInfo files files
               (emit [GetProjectInfo (cwd (resolvedPaths config))] (init_state fs)) = Inr t"
      and s: "s = emit (summary options t) t"
      by (auto simp: updateFiles_def Let_def split: sum.splits)
    from updateLoop_labels[OF loop] s show ?thesis
      by (auto simp: emit_def init_state_def)
  qed
  then obtain ls where ls: "length ls = length files"
     "filesCreated s = entries E config projectInfo files Created (zip files ls)"
     "filesUpdated s = entries E config projectInfo files Updated (zip files ls)"
     "filesSkipped s = entries E config projectInfo files Skipped (zip files ls)"
    by blast
  have "length (filter (\<lambda>(f, l). l = Some Created) (zip files ls))
      + length (filter (\<lambda>(f, l). l = Some Updated) (zip files ls))
      + length (filter (\<lambda>(f, l). l = Some Skipped) (zip files ls)) \<le> length (zip files ls)"
    by (rule filter_three_le) auto
  then have "length (filesCreated s) + length (filesUpdated s) + length (filesSkipped s)
         \<le> length files"
    using ls by (simp add: entries_def)
  with ls show ?thesis by blast
qed

theorem manifest_invariant_witness:
  "\<not> isl (first_run [file_a, file_a', file_b])
   \<and> filesCreated (projr (first_run [file_a, file_a', file_b])) = [''src/lib/a.ts'', ''src/lib/b.ts'']
   \<and> filesUpdated (projr (first_run [file_a, file_a', file_b])) = [''src/lib/a.ts'']
   \<and> (\<exists>ls. length ls = 3
     \<and> filesCreated (projr (first_run [file_a, file_a', file_b]))
         = entries example_env example_config example_info [file_a, file_a', file_b] Created
             (zip [file_a, file_a', file_b] ls)
     \<and> filesUpdated (projr (first_run [file_a, file_a', file_b]))
         = entries example_env example_config example_info [file_a, file_a', file_b] Updated
             (zip [file_a, file_a', file_b] ls)
     \<and> filesSkipped (projr (first_run [file_a, file_a', file_b]))
         = entries example_env example_config example_info [file_a, file_a', file_b] Skipped
             (zip [file_a, file_a', file_b] ls))"
proof -
  let ?run = "first_run [file_a, file_a', file_b]"
  have l: "\<not> isl ?run" by code_simp
  then have r: "updateFiles example_env (Some [file_a, file_a', file_b]) example_config
      example_options example_fs = Inr (projr ?run)"
    unfolding first_run_def by (cases "updateFiles example_env (Some [file_a, file_a', file_b])
      example_config example_options example_fs") auto
  have pi: "example_info = getProjectInfo example_env example_fs (cwd (resolvedPaths example_config))"
    by code_simp
  have v: "filesCreated (projr ?run) = [''src/lib/a.ts'', ''src/lib/b.ts'']"
    "filesUpdated (projr ?run) = [''src/lib/a.ts'']"
    by code_simp+
  from manifest_invariant[OF r pi] obtain ls where
    "length ls = length [file_a, file_a', file_b]"
    "filesCreated (projr ?run)
       = entries example_env example_config example_info [file_a, file_a', file_b] Created
           (zip [file_a, file_a', file_b] ls)"
    "filesUpdated (projr ?run)
       = entries example_env example_config example_info [file_a, file_a', file_b] Updated
           (zip [file_a, file_a', file_b] ls)"
    "filesSkipped (projr ?run)
       = entries example_env example_config example_info [file_a, file_a', file_b] Skipped
           (zip [file_a, file_a', file_b] ls)"
    by blast
  with l v show ?thesis by (intro conjI exI[of _ ls]) simp_all
qed

lemma updateLoop_settles:
  assumes "compatible E config projectInfo files"
    and "overwrite options = Some True"
    and "set rest \<subseteq> set files"
    and "\<forall>g \<in> G. g \<in> set files \<and> (processed config projectInfo files g \<longrightarrow>
           settled (fsys s) (finalPath config projectInfo files g) (newContent E config g))"
    and "updateLoop E config options projectInfo files rest s = Inr s'"
  shows "\<forall>g \<in> G \<union> set rest. processed config projectInfo files g \<longrightarrow>
           settled (fsys s') (finalPath config projectInfo files g) (newContent E config g)"
  using assms(3-5)
proof (induction rest arbitrary: s G)
  case Nil
  then show ?case by simp
next
  case (Cons fl rest)
  from Cons.prems obtain s1 where
    step: "updateFile E config options projectInfo files fl s = Inr s1"
    and loop: "updateLoop E config options projectInfo files rest s1 = Inr s'"
    by (auto split: sum.splits)
  have file_in: "fl \<in> set files" using Cons.prems(1) by simp
  have inv: "\<forall>g \<in> insert fl G. g \<in> set files \<and> (processed config projectInfo files g \<longrightarrow>
           settled (fsys s1) (finalPath config projectInfo files g) (newContent E config g))"
  proof (intro ballI conjI impI)
    fix g assume g: "g \<in> insert fl G"
    show "g \<in> set files" using g file_in Cons.prems(2) by auto
    assume pg: "processed config projectInfo files g"
    show "settled (fsys s1) (finalPath config projectInfo files g) (newContent E config g)"
    proof (cases "processed config projectInfo files fl
                  \<and> finalPath config projectInfo files g = finalPath config projectInfo files fl")
      case True
      then have here: "settled (fsys s1) (finalPath config projectInfo files fl)
                         (newContent E config fl)"
        using updateFile_Inr(3)[OF step assms(2)] by simp
      have "getNormalizedFileContent (newContent E config g)
              = getNormalizedFileContent (newContent E config fl)"
        using assms(1) True pg file_in \<open>g \<in> set files\<close>
        unfolding compatible_def by blast
      with here True show ?thesis
        by (auto simp: settled_def split: option.splits node.splits)
    next
      case False
      show ?thesis
      proof (cases "g = fl")
        case True
        with False pg show ?thesis by simp
      next
        case neq: False
        with g have gG: "g \<in> G" by simp
        with Cons.prems(2) pg have old: "settled (fsys s)
            (finalPath config projectInfo files g) (newContent E config g)"
          by blast
        show ?thesis
        proof (cases "processed config projectInfo files fl")
          case True
          with False have ne: "finalPath config projectInfo files g
              \<noteq> finalPath config projectInfo files fl" by simp
          from old obtain existing where
            e: "fsys s (finalPath config projectInfo files g) = Some (File existing)"
              "getNormalizedFileContent existing
                = getNormalizedFileContent (newContent E config g)"
            by (auto simp: settled_def split: option.splits node.splits)
          from updateFile_Inr(1)[OF step ne e(1)] e(2) show ?thesis
            by (simp add: settled_def)
        next
          case False
          with step have "s1 = s" by (simp add: updateFile_excluded)
          with old show ?thesis by simp
        qed
      qed
    qed
  qed
  have "set rest \<subseteq> set files" using Cons.prems(1) by simp
  from Cons.IH[OF this inv loop] show ?case by simp
qed

lemma updateLoop_all_skipped:
  assumes "\<forall>g \<in> set rest. processed config projectInfo files g \<longrightarrow>
           settled (fsys s) (finalPath config projectInfo files g) (newContent E config g)"
  shows "updateLoop E config options projectInfo files rest s =
     Inr (s\<lparr>filesSkipped := filesSkipped s
               @ map (\<lambda>f. relativePath E config (finalPath config projectInfo files f))
                   (filter (processed config projectInfo files) rest),
            trace := trace s
               @ concat (map (\<lambda>f. [ExistsSync (finalPath config projectInfo files f),
                                    ReadFile (finalPath config projectInfo files f)])
                   (filter (processed config projectInfo files) rest))\<rparr>)"
  using assms
proof (induction rest arbitrary: s)
  case Nil
  then show ?case by simp
next
  case (Cons fl rest)
  show ?case
  proof (cases "processed config projectInfo files fl")
    case False
    with Cons show ?thesis by (simp add: updateFile_excluded)
  next
    case True
    with Cons.prems obtain existing where
      e: "fsys s (finalPath config projectInfo files fl) = Some (File existing)"
         "getNormalizedFileContent existing
            = getNormalizedFileContent (newContent E config fl)"
      by (auto simp: settled_def split: option.splits node.splits)
    let ?s1 = "s\<lparr>filesSkipped := filesSkipped s
                    @ [relativePath E config (finalPath config projectInfo files fl)],
                  trace := trace s @ [ExistsSync (finalPath config projectInfo files fl),
                                      ReadFile (finalPath config projectInfo files fl)]\<rparr>"
    have step: "updateFile E config options projectInfo files fl s = Inr ?s1"
      using True e by (simp add: updateFile_processed reconcile_skip)
    have "\<forall>g \<in> set rest. processed config projectInfo files g \<longrightarrow>
           settled (fsys ?s1) (finalPath config projectInfo files g) (newContent E config g)"
      using Cons.prems by simp
    from Cons.IH[OF this] step True show ?thesis by simp
  qed
qed

text \<open>
  Claim C1, as the code has it. Let the batch be compatible, let a first run with
  \<^verbatim>\<open>overwrite\<close> set return, and let the project be detected afterwards as it was before.
  Then a second run on the file system that the first one left returns too; it creates
  and updates nothing, asks nothing, creates no directory, writes nothing and leaves the
  file system as it is, and every path that the first run reported as created or updated
  is in its skipped list.
\<close>

theorem updateFiles_idempotent:
  assumes "overwrite options = Some True"
    and "compatible E config (getProjectInfo E fs (cwd (resolvedPaths config))) files"
    and "updateFiles E (Some files) config options fs = Inr s1"
    and "getProjectInfo E (fsys s1) (cwd (resolvedPaths config))
           = getProjectInfo E fs (cwd (resolvedPaths config))"
  shows "\<exists>s2. updateFiles E (Some files) config options (fsys s1) = Inr s2
     \<and> filesCreated s2 = [] \<and> filesUpdated s2 = []
     \<and> set (filesCreated s1) \<union> set (filesUpdated s1) \<subseteq> set (filesSkipped s2)
     \<and> fsys s2 = fsys s1
     \<and> (\<forall>p data. WriteFile p data \<notin> set (trace s2))
     \<and> (\<forall>d. Mkdir d \<notin> set (trace s2))
     \<and> (\<forall>n. Confirm n \<notin> set (trace s2))"
proof (cases files)
  case Nil
  with assms(3) show ?thesis by (auto simp: updateFiles_def init_state_def)
next
  case (Cons f rest)
  define pinfo where "pinfo = getProjectInfo E fs (cwd (resolvedPaths config))"
  define s0 where "s0 = emit [GetProjectInfo (cwd (resolvedPaths config))] (init_state fs)"
  from assms(3) Cons obtain t1 where
    loop1: "updateLoop E config options pinfo files files s0 = Inr t1"
    and s1: "s1 = emit (summary options t1) t1"
    by (auto simp: updateFiles_def Let_def pinfo_def s0_def split: sum.splits)
  have fs1: "fsys s1 = fsys t1" using s1 by (simp add: emit_def)
  have settled1: "\<forall>g \<in> set files. processed config pinfo files g \<longrightarrow>
           settled (fsys t1) (finalPath config pinfo files g) (newContent E config g)"
    using updateLoop_settles[OF assms(2)[folded pinfo_def] assms(1) subset_refl _ loop1, of "{}"]
    by simp
  define u0 where "u0 = emit [GetProjectInfo (cwd (resolvedPaths config))] (init_state (fsys s1))"
  define u1 where "u1 = u0\<lparr>filesSkipped := filesSkipped u0
               @ map (\<lambda>f. relativePath E config (finalPath config pinfo files f))
                   (filter (processed config pinfo files) files),
            trace := trace u0
               @ concat (map (\<lambda>f. [ExistsSync (finalPath config pinfo files f),
                                    ReadFile (finalPath config pinfo files f)])
                   (filter (processed config pinfo files) files))\<rparr>"
  have "\<forall>g \<in> set files. processed config pinfo files g \<longrightarrow>
           settled (fsys u0) (finalPath config pinfo files g) (newContent E config g)"
    using settled1 by (simp add: u0_def emit_def init_state_def fs1)
  from updateLoop_all_skipped[OF this]
  have loop2: "updateLoop E config options pinfo files files u0 = Inr u1"
    by (simp add: u1_def)
  define s2 where "s2 = emit (summary options u1) u1"
  have run2: "updateFiles E (Some files) config options (fsys s1) = Inr s2"
    using loop2 Cons assms(4)
    by (simp add: updateFiles_def Let_def s2_def u0_def[symmetric] pinfo_def[symmetric])
  have lists2: "filesCreated s2 = []" "filesUpdated s2 = []"
    "filesSkipped s2 = map (\<lambda>f. relativePath E config (finalPath config pinfo files f))
                   (filter (processed config pinfo files) files)"
    "fsys s2 = fsys s1"
    by (simp_all add: s2_def u1_def u0_def emit_def init_state_def)
  from updateLoop_labels[OF loop1] obtain ls where
    ls: "length ls = length files"
      "\<forall>(fl, l) \<in> set (zip files ls). l \<noteq> None \<longrightarrow> processed config pinfo files fl"
      "filesCreated t1 = filesCreated s0 @ entries E config pinfo files Created (zip files ls)"
      "filesUpdated t1 = filesUpdated s0 @ entries E config pinfo files Updated (zip files ls)"
    by blast
  have sub: "set (entries E config pinfo files oc (zip files ls))
      \<subseteq> set (filesSkipped s2)" for oc
  proof
    fix x assume "x \<in> set (entries E config pinfo files oc (zip files ls))"
    then obtain f l where fl: "(f, l) \<in> set (zip files ls)" "l = Some oc"
      "x = relativePath E config (finalPath config pinfo files f)"
      by (auto simp: entries_def)
    then have "f \<in> set files" "processed config pinfo files f"
      using ls(2) by (auto dest: set_zip_leftD)
    with fl(3) show "x \<in> set (filesSkipped s2)" by (auto simp: lists2(3))
  qed
  have incl: "set (filesCreated s1) \<union> set (filesUpdated s1) \<subseteq> set (filesSkipped s2)"
    using sub[of Created] sub[of Updated] ls(3,4)
    by (simp add: s1 emit_def s0_def init_state_def)
  have tr: "trace s2 = GetProjectInfo (cwd (resolvedPaths config))
      # concat (map (\<lambda>f. [ExistsSync (finalPath config pinfo files f),
                                    ReadFile (finalPath config pinfo files f)])
                   (filter (processed config pinfo files) files)) @ summary options u1"
    by (simp add: s2_def u1_def u0_def emit_def init_state_def)
  have quiet: "\<forall>p data. WriteFile p data \<notin> set (trace s2)"
    "\<forall>d. Mkdir d \<notin> set (trace s2)" "\<forall>n. Confirm n \<notin> set (trace s2)"
    unfolding tr by (auto simp: summary_def Let_def)
  from run2 lists2 incl quiet show ?thesis by blast
qed


theorem updateFiles_idempotent_witness:
  "compatible example_env example_config example_info [file_a, file_b]
   \<and> \<not> isl (first_run [file_a, file_b])
   \<and> filesCreated (projr (first_run [file_a, file_b])) = [''src/lib/a.ts'', ''src/lib/b.ts'']
   \<and> (\<exists>s2. second_run [file_a, file_b] = Inr s2
        \<and> filesCreated s2 = [] \<and> filesUpdated s2 = []
        \<and> set [''src/lib/a.ts'', ''src/lib/b.ts''] \<subseteq> set (filesSkipped s2)
        \<and> fsys s2 = fsys (projr (first_run [file_a, file_b])))"
proof -
  let ?run = "first_run [file_a, file_b]"
  have ow: "overwrite example_options = Some True" by code_simp
  have pi: "getProjectInfo example_env example_fs (cwd (resolvedPaths example_config)) = example_info"
    "getProjectInfo example_env (fsys (projr ?run)) (cwd (resolvedPaths example_config))
       = getProjectInfo example_env example_fs (cwd (resolvedPaths example_config))"
    by (simp_all add: example_env_def)
  have c: "compatible example_env example_config example_info [file_a, file_b]" by code_simp
  have l: "\<not> isl ?run" by code_simp
  then have r: "updateFiles example_env (Some [file_a, file_b]) example_config
      example_options example_fs = Inr (projr ?run)"
    unfolding first_run_def by (cases "updateFiles example_env (Some [file_a, file_b])
      example_config example_options example_fs") auto
  have v: "filesCreated (projr ?run) = [''src/lib/a.ts'', ''src/lib/b.ts'']"
    "filesUpdated (projr ?run) = []"
    by code_simp+
  from updateFiles_idempotent[OF ow c[folded pi(1)] r pi(2)] c l v
  show ?thesis unfolding second_run_def by auto
qed

text \<open>
  The claim as it is written covers every batch. Two files of one batch that end at the
  same path with different contents overwrite each other in every run: the second run
  skips nothing and writes again.
\<close>

theorem idempotence_shared_target_counterexample:
  "\<not> isl (first_run [file_a, file_a'])
   \<and> filesCreated (projr (first_run [file_a, file_a'])) = [''src/lib/a.ts'']
   \<and> filesUpdated (projr (first_run [file_a, file_a'])) = [''src/lib/a.ts'']
   \<and> \<not> isl (second_run [file_a, file_a'])
   \<and> filesSkipped (projr (second_run [file_a, file_a'])) = []
   \<and> filesUpdated (projr (second_run [file_a, file_a'])) = [''src/lib/a.ts'', ''src/lib/a.ts'']
   \<and> WriteFile ''/proj/src/lib/a.ts'' ''A'' \<in> set (trace (projr (second_run [file_a, file_a'])))"
  by code_simp

end
